theory Spec2Isabelle
  imports Complex_Main
begin

section \<open>JavaScript values used by the betting engine\<close>

text \<open>
  The engine (\<^verbatim>\<open>src/js/betting-engine.js\<close>) computes on JavaScript numbers and strings.
  A number is a binary64 value: a finite one is held as the rational it denotes, and
  every arithmetic operation rounds its exact result to the nearest binary64 value, a
  tie going to the even significand, and overflows to an infinity. The sign of zero
  is not held: the engine prints both zeros as \<^verbatim>\<open>0\<close>, compares them as equal and
  never divides by one.
  Strings are lists of 8-bit characters; the inputs are taken to be ASCII.
\<close>

datatype jsnum = Finite rat | PosInf | NegInf | NaN

text \<open>A destructured array element is a number or \<^verbatim>\<open>undefined\<close>.\<close>

datatype jsval = JUndefined | JNum jsnum

text \<open>The integer logarithm: for \<open>b \<ge> 2\<close> and \<open>n \<ge> 1\<close>, \<open>b ^ ilog b n \<le> n < b ^ (ilog b n + 1)\<close>.\<close>

function ilog :: "int \<Rightarrow> int \<Rightarrow> int" where
  "ilog b n = (if b < 2 \<or> n < b then 0 else ilog b (n div b) + 1)"
  by pat_completeness auto
termination
proof (relation "measure (\<lambda>(b, n). nat n)")
  show "wf (measure (\<lambda>(b, n). nat n))" by simp
next
  fix b n :: int
  assume "\<not> (b < 2 \<or> n < b)"
  then have b: "2 \<le> b" "b \<le> n" by simp_all
  then have "n div b < n" by (simp add: int_div_less_self)
  moreover have "0 \<le> n div b" using b by (simp add: pos_imp_zdiv_nonneg_iff)
  ultimately show "((b, n div b), (b, n)) \<in> measure (\<lambda>(b, n). nat n)" by simp
qed

text \<open>
  The exponent of a positive rational \<open>a\<close> in base \<open>b\<close>: the integer \<open>e\<close> with
  \<open>b powi e \<le> a < b powi (e + 1)\<close>.
\<close>

definition floorLog :: "int \<Rightarrow> rat \<Rightarrow> int" where
  "floorLog b a =
     (if 1 \<le> a then ilog b \<lfloor>a\<rfloor>
      else - (ilog b (\<lceil>1 / a\<rceil> - 1) + 1))"

text \<open>The nearest integer, a tie going to the even one.\<close>

definition roundHalfEven :: "rat \<Rightarrow> int" where
  "roundHalfEven y =
     (let n = \<lfloor>y\<rfloor>; f = y - of_int n
      in if f < 1 / 2 then n
         else if 1 / 2 < f then n + 1
         else if even n then n else n + 1)"

text \<open>
  The binary64 value of a rational: the significand has 53 bits, the exponent of a
  normal number is at least -1022 and a subnormal one is a multiple of \<open>2 powi - 1074\<close>;
  a magnitude that rounds to \<open>2 powi 1024\<close> or more is an infinity.
\<close>

definition roundToDouble :: "rat \<Rightarrow> jsnum" where
  "roundToDouble x =
     (if x = 0 then Finite 0
      else if 1024 \<le> floorLog 2 \<bar>x\<bar> then (if 0 < x then PosInf else NegInf)
      else
        (let e = max (floorLog 2 \<bar>x\<bar>) (- 1022);
             q = 2 powi (e - 52);
             n = roundHalfEven (\<bar>x\<bar> / q)
         in if e = 1023 \<and> n = 2 ^ 53 then (if 0 < x then PosInf else NegInf)
            else Finite (sgn x * (of_int n * q))))"

text \<open>The rationals that are binary64 values.\<close>

definition isDouble :: "rat \<Rightarrow> bool" where
  "isDouble x = (roundToDouble x = Finite x)"

fun jneg :: "jsnum \<Rightarrow> jsnum" where
  "jneg (Finite x) = Finite (- x)"
| "jneg PosInf = NegInf"
| "jneg NegInf = PosInf"
| "jneg NaN = NaN"

text \<open>\<^verbatim>\<open>a + b\<close> on numbers: the exact sum, rounded.\<close>

fun jadd :: "jsnum \<Rightarrow> jsnum \<Rightarrow> jsnum" where
  "jadd (Finite x) (Finite y) = roundToDouble (x + y)"
| "jadd NaN b = NaN"
| "jadd a NaN = NaN"
| "jadd PosInf NegInf = NaN"
| "jadd NegInf PosInf = NaN"
| "jadd PosInf b = PosInf"
| "jadd NegInf b = NegInf"
| "jadd (Finite x) b = b"

text \<open>\<^verbatim>\<open>a - b\<close> on numbers.\<close>

definition jsub :: "jsnum \<Rightarrow> jsnum \<Rightarrow> jsnum" where
  "jsub a b = jadd a (jneg b)"

text \<open>The sign of a number that is not NaN, as \<open>-1\<close>, \<open>0\<close> or \<open>1\<close>.\<close>

fun jsign :: "jsnum \<Rightarrow> int" where
  "jsign (Finite x) = (if x < 0 then - 1 else if x = 0 then 0 else 1)"
| "jsign PosInf = 1"
| "jsign NegInf = - 1"
| "jsign NaN = 0"

text \<open>\<^verbatim>\<open>a * b\<close> on numbers: the exact product, rounded; an infinity times zero is NaN.\<close>

fun jmul :: "jsnum \<Rightarrow> jsnum \<Rightarrow> jsnum" where
  "jmul (Finite x) (Finite y) = roundToDouble (x * y)"
| "jmul NaN b = NaN"
| "jmul a NaN = NaN"
| "jmul a b =
     (let s = jsign a * jsign b
      in if s = 0 then NaN else if 0 < s then PosInf else NegInf)"

text \<open>
  \<^verbatim>\<open>a / c\<close> for a finite literal \<open>c > 0\<close> (the engine only divides by the literal 100).
\<close>

fun jdivLit :: "jsnum \<Rightarrow> rat \<Rightarrow> jsnum" where
  "jdivLit (Finite x) c = roundToDouble (x / c)"
| "jdivLit a c = a"

text \<open>
  \<^verbatim>\<open>Math.round\<close>: the nearest integer, a tie going towards plus infinity. The result
  for a binary64 value is a binary64 value, so nothing is rounded a second time.
\<close>

fun mathRound :: "jsnum \<Rightarrow> jsnum" where
  "mathRound (Finite x) = Finite (of_int \<lfloor>x + 1 / 2\<rfloor>)"
| "mathRound a = a"

text \<open>\<^verbatim>\<open>a >= b\<close> and \<^verbatim>\<open>a === b\<close> on numbers: every comparison with NaN is false.\<close>

fun jge :: "jsnum \<Rightarrow> jsnum \<Rightarrow> bool" where
  "jge (Finite x) (Finite y) = (y \<le> x)"
| "jge NaN b = False"
| "jge a NaN = False"
| "jge PosInf b = True"
| "jge a NegInf = True"
| "jge NegInf b = False"
| "jge (Finite x) PosInf = False"

definition jeq :: "jsnum \<Rightarrow> jsnum \<Rightarrow> bool" where
  "jeq a b = (a \<noteq> NaN \<and> a = b)"

definition isNaN :: "jsnum \<Rightarrow> bool" where
  "isNaN a = (a = NaN)"

text \<open>\<^verbatim>\<open>ToNumber\<close> of a number or \<^verbatim>\<open>undefined\<close>, as the arithmetic operators apply it.\<close>

fun toNumber :: "jsval \<Rightarrow> jsnum" where
  "toNumber JUndefined = NaN"
| "toNumber (JNum a) = a"

section \<open>String operations\<close>

text \<open>\<^verbatim>\<open>s.startsWith(p)\<close>.\<close>

fun startsWith :: "string \<Rightarrow> string \<Rightarrow> bool" where
  "startsWith s [] = True"
| "startsWith [] (c # p) = False"
| "startsWith (x # s) (c # p) = (x = c \<and> startsWith s p)"

text \<open>The ASCII characters matched by \<^verbatim>\<open>\s\<close> and trimmed by the numeric conversions.\<close>

definition isSpace :: "char \<Rightarrow> bool" where
  "isSpace c = (c \<in> {CHR '' '', CHR 0x09, CHR 0x0A, CHR 0x0B, CHR 0x0C, CHR 0x0D})"

text \<open>\<^verbatim>\<open>s.replace(/\s/g, '')\<close>.\<close>

definition removeSpaces :: "string \<Rightarrow> string" where
  "removeSpaces s = filter (\<lambda>c. \<not> isSpace c) s"

text \<open>\<^verbatim>\<open>s.split(sep)\<close> for a one-character separator: never the empty list.\<close>

fun splitStr :: "char \<Rightarrow> string \<Rightarrow> string list" where
  "splitStr sep [] = [[]]"
| "splitStr sep (c # cs) =
     (if c = sep then [] # splitStr sep cs
      else (case splitStr sep cs of [] \<Rightarrow> [[c]] | p # ps \<Rightarrow> (c # p) # ps))"

text \<open>The value of a character as a digit, letters counting from ten as in \<^verbatim>\<open>parseInt\<close>.\<close>

definition digitValue :: "char \<Rightarrow> int option" where
  "digitValue c =
     (let n = (of_char c :: int)
      in if 48 \<le> n \<and> n \<le> 57 then Some (n - 48)
         else if 97 \<le> n \<and> n \<le> 122 then Some (n - 87)
         else if 65 \<le> n \<and> n \<le> 90 then Some (n - 55)
         else None)"

definition digitIn :: "int \<Rightarrow> char \<Rightarrow> int option" where
  "digitIn radix c =
     (case digitValue c of
        None \<Rightarrow> None
      | Some d \<Rightarrow> if d < radix then Some d else None)"

text \<open>The longest prefix of digits of the radix, and what follows it.\<close>

fun spanDigits :: "int \<Rightarrow> string \<Rightarrow> int list \<times> string" where
  "spanDigits radix [] = ([], [])"
| "spanDigits radix (c # cs) =
     (case digitIn radix c of
        None \<Rightarrow> ([], c # cs)
      | Some d \<Rightarrow> (case spanDigits radix cs of (ds, rest) \<Rightarrow> (d # ds, rest)))"

definition digitsValue :: "int \<Rightarrow> int list \<Rightarrow> int" where
  "digitsValue radix ds = foldl (\<lambda>acc d. acc * radix + d) 0 ds"

text \<open>An optional sign at the head of a string: the sign and the rest.\<close>

fun takeSign :: "string \<Rightarrow> int \<times> string" where
  "takeSign [] = (1, [])"
| "takeSign (c # cs) =
     (if c = CHR ''-'' then (- 1, cs)
      else if c = CHR ''+'' then (1, cs)
      else (1, c # cs))"

text \<open>
  \<^verbatim>\<open>parseInt(s)\<close> with no radix: leading white space is skipped, then an optional sign,
  an optional \<^verbatim>\<open>0x\<close> prefix that selects radix 16, and the longest run of digits;
  what follows the digits is ignored, and no digit at all gives NaN. The integer read
  is rounded to binary64 (for more than 20 significant digits the standard leaves the
  last bit to the implementation; the correctly rounded value is taken).
\<close>

definition parseInt :: "string \<Rightarrow> jsnum" where
  "parseInt s =
     (case takeSign (dropWhile isSpace s) of (sign, u) \<Rightarrow>
        (case (if startsWith u ''0x'' \<or> startsWith u ''0X'' then (16, drop 2 u) else (10, u))
         of (radix, v) \<Rightarrow>
           (case spanDigits radix v of (ds, rest) \<Rightarrow>
              if ds = [] then NaN
              else roundToDouble (of_int (sign * digitsValue radix ds)))))"

text \<open>The white space at both ends of a string removed.\<close>

definition trim :: "string \<Rightarrow> string" where
  "trim s = rev (dropWhile isSpace (rev (dropWhile isSpace s)))"

text \<open>A string that is one or more digits of the radix and nothing else.\<close>

definition allDigits :: "int \<Rightarrow> string \<Rightarrow> int option" where
  "allDigits radix s =
     (case spanDigits radix s of (ds, rest) \<Rightarrow>
        if ds \<noteq> [] \<and> rest = [] then Some (digitsValue radix ds) else None)"

text \<open>
  The rest of a decimal literal after its digits: nothing, or an exponent part
  (\<^verbatim>\<open>e\<close> or \<^verbatim>\<open>E\<close>, an optional sign, digits). The result is the exponent.
\<close>

definition exponentPart :: "string \<Rightarrow> int option" where
  "exponentPart s =
     (case s of
        [] \<Rightarrow> Some 0
      | c # cs \<Rightarrow>
          if c = CHR ''e'' \<or> c = CHR ''E'' then
            (case takeSign cs of (sign, ds) \<Rightarrow>
               (case allDigits 10 ds of None \<Rightarrow> None | Some n \<Rightarrow> Some (sign * n)))
          else None)"

text \<open>
  An unsigned decimal literal: digits, an optional point and digits, with at least one
  digit before or after the point, then an optional exponent part.
\<close>

definition decimalLiteral :: "string \<Rightarrow> rat option" where
  "decimalLiteral s =
     (case spanDigits 10 s of (ip, r1) \<Rightarrow>
        (case (case r1 of
                 [] \<Rightarrow> ([], r1)
               | c # cs \<Rightarrow> if c = CHR ''.'' then spanDigits 10 cs else ([], r1))
         of (fp, r2) \<Rightarrow>
           if ip = [] \<and> fp = [] then None
           else (case exponentPart r2 of
                   None \<Rightarrow> None
                 | Some e \<Rightarrow>
                     Some ((of_int (digitsValue 10 ip)
                            + of_int (digitsValue 10 fp) / 10 ^ length fp) * 10 powi e))))"

definition nonDecimal :: "int \<Rightarrow> string \<Rightarrow> jsnum" where
  "nonDecimal radix s =
     (case allDigits radix s of None \<Rightarrow> NaN | Some n \<Rightarrow> roundToDouble (of_int n))"

text \<open>
  \<^verbatim>\<open>Number(s)\<close> of a string: the white space around it is dropped; the empty string
  is 0; a hexadecimal, octal or binary literal takes no sign; otherwise an optional sign
  and \<^verbatim>\<open>Infinity\<close> or a decimal literal; anything else is NaN. The value of a
  literal is rounded to binary64.
\<close>

definition Number :: "string \<Rightarrow> jsnum" where
  "Number s =
     (let t = trim s
      in if t = [] then Finite 0
         else if startsWith t ''0x'' \<or> startsWith t ''0X'' then nonDecimal 16 (drop 2 t)
         else if startsWith t ''0o'' \<or> startsWith t ''0O'' then nonDecimal 8 (drop 2 t)
         else if startsWith t ''0b'' \<or> startsWith t ''0B'' then nonDecimal 2 (drop 2 t)
         else (case takeSign t of (sign, u) \<Rightarrow>
                 if u = ''Infinity'' then (if sign < 0 then NegInf else PosInf)
                 else (case decimalLiteral u of
                         None \<Rightarrow> NaN
                       | Some v \<Rightarrow> roundToDouble (of_int sign * v))))"

text \<open>
  \<^verbatim>\<open>parseFloat(x.toString())\<close> of a number \<open>x\<close>: the string of a number reads back as
  the same number.
\<close>

definition parseFloat :: "jsnum \<Rightarrow> jsnum" where
  "parseFloat x = x"

text \<open>The decimal digits of a non-negative integer.\<close>

function decDigits :: "int \<Rightarrow> string" where
  "decDigits n = (if n < 10 then [] else decDigits (n div 10)) @ [char_of (n mod 10 + 48)]"
  by pat_completeness auto
termination
proof (relation "measure nat")
  show "wf (measure nat)" by simp
next
  fix n :: int
  assume "\<not> n < 10"
  then have "n div 10 < n" "0 \<le> n div 10" by simp_all
  then show "(n div 10, n) \<in> measure nat" by simp
qed

definition natDigits :: "nat \<Rightarrow> string" where
  "natDigits n = decDigits (int n)"

text \<open>
  The digits of a positive binary64 value \<open>x\<close> whose decimal exponent is \<open>n\<close>, that is
  \<open>10 powi (n - 1) \<le> x < 10 powi n\<close>: the least number \<open>k\<close> of digits, starting from the
  given one, for which an integer \<open>s\<close> of \<open>k\<close> digits has \<open>s * 10 powi (n - k)\<close> round to
  \<open>x\<close>, and of the two candidates next to \<open>x\<close> the closer one. Seventeen digits always
  suffice.
\<close>

fun shortestDigits :: "nat \<Rightarrow> nat \<Rightarrow> rat \<Rightarrow> int \<Rightarrow> int \<times> nat" where
  "shortestDigits 0 k x n = (roundHalfEven (x / 10 powi (n - int k)), k)"
| "shortestDigits (Suc fuel) k x n =
     (let scale = 10 powi (n - int k);
          y = x / scale;
          lo = \<lfloor>y\<rfloor>;
          hi = \<lceil>y\<rceil>;
          okLo = (roundToDouble (of_int lo * scale) = Finite x);
          okHi = (roundToDouble (of_int hi * scale) = Finite x)
      in if okLo \<and> okHi then
           (if y - of_int lo < of_int hi - y then lo
            else if of_int hi - y < y - of_int lo then hi
            else if even lo then lo else hi, k)
         else if okLo then (lo, k)
         else if okHi then (hi, k)
         else shortestDigits fuel (Suc k) x n)"

text \<open>
  The text of the digits \<open>ds\<close> with decimal exponent \<open>n\<close>: plain digits, a decimal
  point inside or zeros after \<^verbatim>\<open>0.\<close> for \<open>-6 < n \<le> 21\<close>, exponent notation otherwise.
\<close>

definition formatDigits :: "string \<Rightarrow> int \<Rightarrow> string" where
  "formatDigits ds n =
     (let k = int (length ds)
      in if k \<le> n \<and> n \<le> 21 then ds @ replicate (nat (n - k)) CHR ''0''
         else if 0 < n \<and> n \<le> 21 then take (nat n) ds @ ''.'' @ drop (nat n) ds
         else if - 6 < n \<and> n \<le> 0 then ''0.'' @ replicate (nat (- n)) CHR ''0'' @ ds
         else
           (let ex = (if 0 \<le> n - 1 then ''+'' else ''-'') @ decDigits \<bar>n - 1\<bar>
            in if k = 1 then ds @ ''e'' @ ex
               else take 1 ds @ ''.'' @ drop 1 ds @ ''e'' @ ex))"

definition positiveToString :: "rat \<Rightarrow> string" where
  "positiveToString x =
     (let n = floorLog 10 x + 1
      in case shortestDigits 16 1 x n of (s, k) \<Rightarrow>
           (let ds = decDigits s;
                ds' = rev (dropWhile (\<lambda>c. c = CHR ''0'') (rev ds))
            in formatDigits ds' (n + (int (length ds) - int k))))"

text \<open>
  The string of a number in a template literal (\<^verbatim>\<open>Number::toString\<close>): the shortest
  digits that read back as the number.
\<close>

definition numberToString :: "jsnum \<Rightarrow> string" where
  "numberToString a =
     (case a of
        NaN \<Rightarrow> ''NaN''
      | PosInf \<Rightarrow> ''Infinity''
      | NegInf \<Rightarrow> ''-Infinity''
      | Finite x \<Rightarrow>
          if x = 0 then ''0''
          else if x < 0 then ''-'' @ positiveToString (- x)
          else positiveToString x)"

fun toString :: "jsval \<Rightarrow> string" where
  "toString JUndefined = ''undefined''"
| "toString (JNum a) = numberToString a"

text \<open>An array element read by destructuring: \<^verbatim>\<open>undefined\<close> past the end.\<close>

definition element :: "jsnum list \<Rightarrow> nat \<Rightarrow> jsval" where
  "element xs i = (if i < length xs then JNum (xs ! i) else JUndefined)"

section \<open>The betting engine\<close>

text \<open>
  \<^verbatim>\<open>calculateEnhancedPredictedResult(selectionCombo, selectionLine, betTimeScore,
  currentScore)\<close>, lines 119-190. The parameters have the types of the function's
  documentation: two strings, a number, and a string or \<^verbatim>\<open>null\<close> (\<open>None\<close>) for
  \<^verbatim>\<open>betTimeScore\<close>. A string is truthy when it is not empty.
\<close>

definition calculateEnhancedPredictedResult ::
  "string \<Rightarrow> jsnum \<Rightarrow> string option \<Rightarrow> string \<Rightarrow> string" where
  "calculateEnhancedPredictedResult selectionCombo selectionLine betTimeScore currentScore =
     (let line = parseFloat selectionLine;
          goals = map Number (splitStr CHR ''-'' currentScore);
          currentHomeGoals = element goals 0;
          currentAwayGoals = element goals 1;
          adjusted =
            (case betTimeScore of
               None \<Rightarrow> (currentHomeGoals, currentAwayGoals)
             | Some b \<Rightarrow>
                 if b \<noteq> [] \<and> b \<noteq> ''N/A'' then
                   (let betScoreParts = splitStr CHR ''-'' (removeSpaces b)
                    in if length betScoreParts = 2 then
                         (let betHomeGoals = parseInt (betScoreParts ! 0);
                              betAwayGoals = parseInt (betScoreParts ! 1)
                          in if \<not> isNaN betHomeGoals \<and> \<not> isNaN betAwayGoals then
                               (JNum (jsub (toNumber currentHomeGoals) betHomeGoals),
                                JNum (jsub (toNumber currentAwayGoals) betAwayGoals))
                             else (currentHomeGoals, currentAwayGoals))
                       else (currentHomeGoals, currentAwayGoals))
                 else (currentHomeGoals, currentAwayGoals));
          adjustedHomeGoals = fst adjusted;
          adjustedAwayGoals = snd adjusted
      in if selectionCombo = ''Home Team'' \<or> selectionCombo = ''Away Team'' then
           (let goalDiff =
                  (if selectionCombo = ''Home Team''
                   then jsub (toNumber adjustedHomeGoals) (toNumber adjustedAwayGoals)
                   else jsub (toNumber adjustedAwayGoals) (toNumber adjustedHomeGoals));
                adjustedScore = jadd goalDiff line;
                rounded = jdivLit (mathRound (jmul adjustedScore (Finite 100))) 100;
                result =
                  (if jge rounded (Finite (1 / 2)) then ''Win''
                   else if jeq rounded (Finite (1 / 4)) then ''Half Win''
                   else if jeq rounded (Finite 0) then ''Push''
                   else if jeq rounded (Finite (- (1 / 4))) then ''Half Loss''
                   else ''Loss'')
            in result @ '' - '' @ selectionCombo @ '' ('' @ numberToString line @ '') (''
               @ toString adjustedHomeGoals @ ''-'' @ toString adjustedAwayGoals @ '')'')
         else if selectionCombo = ''Over'' \<or> selectionCombo = ''Under'' then
           (let totalGoals = jadd (toNumber currentHomeGoals) (toNumber currentAwayGoals);
                diff =
                  (if selectionCombo = ''Over''
                   then jsub totalGoals line
                   else jsub line totalGoals);
                rounded = jdivLit (mathRound (jmul diff (Finite 100))) 100;
                result =
                  (if jge rounded (Finite (1 / 2)) then ''Win''
                   else if jeq rounded (Finite (1 / 4)) then ''Half Win''
                   else if jeq rounded (Finite 0) then ''Push''
                   else if jeq rounded (Finite (- (1 / 4))) then ''Half Loss''
                   else ''Loss'')
            in result @ '' - '' @ selectionCombo @ '' ('' @ numberToString line @ '') (''
               @ numberToString totalGoals @ '' goals)'')
         else ''Pending'')"

text \<open>
  \<^verbatim>\<open>calculatePayout(result, stake, odds)\<close>, lines 242-257, for a string \<^verbatim>\<open>result\<close> and
  numbers \<^verbatim>\<open>stake\<close> and \<^verbatim>\<open>odds\<close>.
\<close>

definition calculatePayout :: "string \<Rightarrow> jsnum \<Rightarrow> jsnum \<Rightarrow> jsnum" where
  "calculatePayout result stake odds =
     (let stakeNum = parseFloat stake;
          oddsNum = parseFloat odds
      in if startsWith result ''Win'' then jmul stakeNum oddsNum
         else if startsWith result ''Half Win'' then
           jadd stakeNum (jmul (jmul stakeNum (jsub oddsNum (Finite 1))) (Finite (1 / 2)))
         else if startsWith result ''Push'' then stakeNum
         else if startsWith result ''Half Loss'' then jmul stakeNum (Finite (1 / 2))
         else Finite 0)"

text \<open>
  The emotion objects of lines 264-293. The emoji is held as the bytes of its UTF-8
  encoding.
\<close>

record emotion =
  emoji :: string
  state :: string
  description :: string

definition getEmotionFromResult :: "string \<Rightarrow> emotion" where
  "getEmotionFromResult result =
     (if startsWith result ''Win'' then
        \<lparr>emoji = [CHR 0xF0, CHR 0x9F, CHR 0x8E, CHR 0x89], state = ''joy'',
         description = ''Celebrating win!''\<rparr>
      else if startsWith result ''Half Win'' then
        \<lparr>emoji = [CHR 0xF0, CHR 0x9F, CHR 0x98, CHR 0x8A], state = ''relief'',
         description = ''Half win - not bad!''\<rparr>
      else if startsWith result ''Push'' then
        \<lparr>emoji = [CHR 0xF0, CHR 0x9F, CHR 0x98, CHR 0x90], state = ''neutral'',
         description = ''Push - stake returned''\<rparr>
      else if startsWith result ''Half Loss'' then
        \<lparr>emoji = [CHR 0xF0, CHR 0x9F, CHR 0x98, CHR 0x95], state = ''annoyed'',
         description = ''Half loss - could be worse''\<rparr>
      else if startsWith result ''Loss'' then
        \<lparr>emoji = [CHR 0xF0, CHR 0x9F, CHR 0x98, CHR 0xA1], state = ''anger'',
         description = ''Lost the bet!''\<rparr>
      else
        \<lparr>emoji = [CHR 0xF0, CHR 0x9F, CHR 0xA4, CHR 0x94], state = ''thinking'',
         description = ''Checking result...''\<rparr>)"

definition getInProgressEmotion :: "string \<Rightarrow> emotion" where
  "getInProgressEmotion prediction =
     (if startsWith prediction ''Win'' \<or> startsWith prediction ''Half Win'' then
        \<lparr>emoji = [CHR 0xF0, CHR 0x9F, CHR 0xA4, CHR 0x9E], state = ''hopeful'',
         description = ''Looking good!''\<rparr>
      else if startsWith prediction ''Loss'' \<or> startsWith prediction ''Half Loss'' then
        \<lparr>emoji = [CHR 0xF0, CHR 0x9F, CHR 0x98, CHR 0xB0], state = ''worried'',
         description = ''Not looking good...''\<rparr>
      else
        \<lparr>emoji = [CHR 0xF0, CHR 0x9F, CHR 0x98, CHR 0x90], state = ''neutral'',
         description = ''Too close to call''\<rparr>)"


section \<open>Notions used to state the properties\<close>

text \<open>\<^verbatim>\<open>Math.round(x * 100) / 100\<close>, lines 148 and 172.\<close>

definition round2 :: "jsnum \<Rightarrow> jsnum" where
  "round2 x = jdivLit (mathRound (jmul x (Finite 100))) 100"

text \<open>The chain of comparisons of lines 150-160, which lines 174-184 repeat.\<close>

definition resultLabel :: "jsnum \<Rightarrow> string" where
  "resultLabel rounded =
     (if jge rounded (Finite (1 / 2)) then ''Win''
      else if jeq rounded (Finite (1 / 4)) then ''Half Win''
      else if jeq rounded (Finite 0) then ''Push''
      else if jeq rounded (Finite (- (1 / 4))) then ''Half Loss''
      else ''Loss'')"

text \<open>
  The guard of lines 127-132: a bet-time score that is used, because it is truthy, is
  not \<^verbatim>\<open>N/A\<close>, and has two parts that \<^verbatim>\<open>parseInt\<close> reads.
\<close>

definition snapshotUsed :: "string option \<Rightarrow> bool" where
  "snapshotUsed betTimeScore =
     (case betTimeScore of
        None \<Rightarrow> False
      | Some b \<Rightarrow>
          b \<noteq> [] \<and> b \<noteq> ''N/A''
          \<and> length (splitStr CHR ''-'' (removeSpaces b)) = 2
          \<and> \<not> isNaN (parseInt (splitStr CHR ''-'' (removeSpaces b) ! 0))
          \<and> \<not> isNaN (parseInt (splitStr CHR ''-'' (removeSpaces b) ! 1)))"

text \<open>The current score string is read as the two finite numbers \<open>h\<close> and \<open>a\<close>.\<close>

definition scoreReads :: "string \<Rightarrow> rat \<Rightarrow> rat \<Rightarrow> bool" where
  "scoreReads currentScore h a =
     (map Number (splitStr CHR ''-'' currentScore) = [Finite h, Finite a])"

text \<open>
  The bet-time score is read as \<open>bh\<close> and \<open>ba\<close>; an absent one (\<^verbatim>\<open>null\<close>) stands for 0-0.
\<close>

definition snapshotReads :: "string option \<Rightarrow> rat \<Rightarrow> rat \<Rightarrow> bool" where
  "snapshotReads betTimeScore bh ba =
     (case betTimeScore of
        None \<Rightarrow> bh = 0 \<and> ba = 0
      | Some b \<Rightarrow>
          map parseInt (splitStr CHR ''-'' (removeSpaces b)) = [Finite bh, Finite ba])"

text \<open>
  The rounded margin as lines 143-148 and 167-172 compute it, in the arithmetic of
  JavaScript, from the line, the bet-time score \<open>(bh, ba)\<close> and the current score
  \<open>(h, a)\<close> that were read.
\<close>

definition computedMargin :: "string \<Rightarrow> jsnum \<Rightarrow> rat \<times> rat \<Rightarrow> rat \<times> rat \<Rightarrow> jsnum" where
  "computedMargin selectionCombo line snapshot score =
     (let adjustedHomeGoals = jsub (Finite (fst score)) (Finite (fst snapshot));
          adjustedAwayGoals = jsub (Finite (snd score)) (Finite (snd snapshot));
          totalGoals = jadd (Finite (fst score)) (Finite (snd score))
      in if selectionCombo = ''Home Team''
         then round2 (jadd (jsub adjustedHomeGoals adjustedAwayGoals) line)
         else if selectionCombo = ''Away Team''
         then round2 (jadd (jsub adjustedAwayGoals adjustedHomeGoals) line)
         else if selectionCombo = ''Over'' then round2 (jsub totalGoals line)
         else round2 (jsub line totalGoals))"

text \<open>The score string of two goal counts, as the score source writes it.\<close>

definition scoreString :: "nat \<Rightarrow> nat \<Rightarrow> string" where
  "scoreString h a = natDigits h @ ''-'' @ natDigits a"

text \<open>A decimal digit.\<close>

definition decimal :: "char \<Rightarrow> bool" where
  "decimal c = (48 \<le> (of_char c :: int) \<and> (of_char c :: int) \<le> 57)"

subsection \<open>The classification as the specification words it\<close>

datatype outcome = Win | HalfWin | Push | HalfLoss | Loss

fun label :: "outcome \<Rightarrow> string" where
  "label Win = ''Win''"
| "label HalfWin = ''Half Win''"
| "label Push = ''Push''"
| "label HalfLoss = ''Half Loss''"
| "label Loss = ''Loss''"

text \<open>Rounding to two decimal places.\<close>

definition spec_round2 :: "rat \<Rightarrow> rat" where
  "spec_round2 x = of_int \<lfloor>x * 100 + 1 / 2\<rfloor> / 100"

text \<open>
  Steps 1 and 2 of the algorithm of the specification: the margin of a selection with
  line \<open>line\<close>, for the snapshot \<open>(bh, ba)\<close> and the current score \<open>(h, a)\<close>.
\<close>

definition spec_margin :: "string \<Rightarrow> rat \<Rightarrow> rat \<times> rat \<Rightarrow> rat \<times> rat \<Rightarrow> rat" where
  "spec_margin selectionType line snapshot score =
     (let adjustedHome = fst score - fst snapshot;
          adjustedAway = snd score - snd snapshot;
          total = fst score + snd score
      in if selectionType = ''Home Team'' then spec_round2 (adjustedHome - adjustedAway + line)
         else if selectionType = ''Away Team'' then spec_round2 (adjustedAway - adjustedHome + line)
         else if selectionType = ''Over'' then spec_round2 (total - line)
         else spec_round2 (line - total))"

text \<open>
  Step 3: the five buckets of the margin. A margin in no bucket is unclassifiable
  (\<open>None\<close>).
\<close>

definition spec_classify :: "rat \<Rightarrow> outcome option" where
  "spec_classify margin =
     (if margin \<ge> 1 / 2 then Some Win
      else if margin = 1 / 4 then Some HalfWin
      else if margin = 0 then Some Push
      else if margin = - (1 / 4) then Some HalfLoss
      else if margin \<le> - (1 / 2) then Some Loss
      else None)"

section \<open>Auxiliary facts\<close>

lemma startsWith_append [simp]: "startsWith (p @ d) p"
  by (induction p) auto

subsection \<open>Rounding to binary64\<close>

declare ilog.simps [simp del]

lemma ilog_bounds:
  assumes "2 \<le> b" and "1 \<le> n"
  shows "0 \<le> ilog b n \<and> b ^ nat (ilog b n) \<le> n \<and> n < b ^ nat (ilog b n + 1)"
  using assms
proof (induction b n rule: ilog.induct)
  case (1 b n)
  show ?case
  proof (cases "n < b")
    case True
    with 1(2,3) show ?thesis by (simp add: ilog.simps [of b n])
  next
    case False
    define m where "m = n div b"
    from False 1(2) have "0 < n div b"
      by (simp add: pos_imp_zdiv_pos_iff)
    then have m1: "1 \<le> m"
      unfolding m_def by simp
    have step: "ilog b n = ilog b m + 1"
      using False 1(2) by (simp add: ilog.simps [of b n] m_def)
    from 1(1) [OF _ 1(2)] False 1(2) m1
    have ih: "0 \<le> ilog b m" "b ^ nat (ilog b m) \<le> m" "m < b ^ nat (ilog b m + 1)"
      by (simp_all add: m_def)
    define k where "k = nat (ilog b m)"
    from ih(1) have sk: "nat (ilog b m + 1) = Suc k" by (simp add: k_def)
    from ih have k: "b ^ k \<le> m" "m < b ^ Suc k" "ilog b m = int k"
      unfolding sk by (simp_all add: k_def)
    have lo: "b * m \<le> n" and hi: "n < b * (m + 1)"
    proof -
      have "n = b * m + n mod b" by (simp add: m_def)
      moreover have "0 \<le> n mod b" "n mod b < b" using 1(2) by simp_all
      ultimately show "b * m \<le> n" "n < b * (m + 1)" by (simp_all add: algebra_simps)
    qed
    have "b ^ Suc k \<le> n"
    proof -
      have "b * b ^ k \<le> b * m" using k(1) 1(2) by (simp add: mult_left_mono)
      with lo show ?thesis by simp
    qed
    moreover have "n < b ^ Suc (Suc k)"
    proof -
      from k(2) have "m + 1 \<le> b ^ Suc k" by simp
      then have "b * (m + 1) \<le> b * b ^ Suc k" using 1(2) by (simp add: mult_left_mono)
      with hi show ?thesis by simp
    qed
    moreover have "nat (ilog b n + 1) = Suc (Suc k)" "nat (ilog b n) = Suc k"
      by (simp_all add: step k(3))
    ultimately show ?thesis
      by (simp add: step k(3))
  qed
qed

lemma floorLog_bounds:
  assumes "2 \<le> b" and "0 < a"
  shows "of_int b powi floorLog b a \<le> a" and "a < of_int b powi (floorLog b a + 1)"
proof -
  have bpos: "(0 :: rat) < of_int b" using assms(1) by simp
  have "of_int b powi floorLog b a \<le> a \<and> a < of_int b powi (floorLog b a + 1)"
  proof (cases "1 \<le> a")
    case True
    then have f1: "1 \<le> \<lfloor>a\<rfloor>" by simp
    define k where "k = nat (ilog b \<lfloor>a\<rfloor>)"
    note ib = ilog_bounds [OF assms(1) f1]
    from ib have sk: "nat (ilog b \<lfloor>a\<rfloor> + 1) = Suc k" unfolding k_def by arith
    from ib have k: "ilog b \<lfloor>a\<rfloor> = int k" "b ^ k \<le> \<lfloor>a\<rfloor>" "\<lfloor>a\<rfloor> < b ^ Suc k"
      unfolding sk by (simp_all add: k_def)
    have fl: "floorLog b a = int k" using True k(1) by (simp add: floorLog_def)
    have "(of_int (b ^ k) :: rat) \<le> of_int \<lfloor>a\<rfloor>" using k(2) by (simp only: of_int_le_iff)
    also have "\<dots> \<le> a" by simp
    finally have lo: "(of_int b :: rat) ^ k \<le> a" by simp
    from k(3) have "\<lfloor>a\<rfloor> + 1 \<le> b ^ Suc k" by simp
    then have "(of_int (\<lfloor>a\<rfloor> + 1) :: rat) \<le> of_int (b ^ Suc k)" by (simp only: of_int_le_iff)
    moreover have "a < of_int (\<lfloor>a\<rfloor> + 1)" by linarith
    ultimately have hi: "a < (of_int b :: rat) ^ Suc k" by simp
    from lo have "of_int b powi floorLog b a \<le> a" by (simp add: fl)
    moreover have "int k + 1 = int (Suc k)" by simp
    with hi have "a < of_int b powi (floorLog b a + 1)"
      unfolding fl by (simp only: power_int_of_nat)
    ultimately show ?thesis by simp
  next
    case False
    then have a1: "a < 1" by simp
    define c where "c = \<lceil>1 / a\<rceil>"
    from a1 assms(2) have "1 < 1 / a" by simp
    then have c2: "2 \<le> c" unfolding c_def by linarith
    then have c1: "1 \<le> c - 1" by simp
    define k where "k = nat (ilog b (c - 1))"
    note ib = ilog_bounds [OF assms(1) c1]
    from ib have sk: "nat (ilog b (c - 1) + 1) = Suc k" unfolding k_def by arith
    from ib have k: "ilog b (c - 1) = int k" "b ^ k \<le> c - 1" "c - 1 < b ^ Suc k"
      unfolding sk by (simp_all add: k_def)
    have fl: "floorLog b a = - int (Suc k)"
      using False k(1) by (simp add: floorLog_def c_def)
    have "of_int (c - 1) < 1 / a" unfolding c_def by linarith
    moreover have "(of_int (b ^ k) :: rat) \<le> of_int (c - 1)" using k(2) by (simp only: of_int_le_iff)
    ultimately have "(of_int b :: rat) ^ k < 1 / a" by simp
    then have hi: "a < 1 / (of_int b :: rat) ^ k"
      using assms(2) bpos by (simp add: field_simps)
    from k(3) have "c \<le> b ^ Suc k" by simp
    then have "(of_int c :: rat) \<le> of_int (b ^ Suc k)" by (simp only: of_int_le_iff)
    moreover have "1 / a \<le> of_int c" unfolding c_def by linarith
    ultimately have "1 / a \<le> (of_int b :: rat) ^ Suc k" by simp
    then have lo: "1 / (of_int b :: rat) ^ Suc k \<le> a"
      using assms(2) bpos by (simp add: field_simps)
    have p1: "(of_int b :: rat) powi (- int (Suc k)) = 1 / of_int b ^ Suc k"
      by (simp only: power_int_minus power_int_of_nat inverse_eq_divide)
    have "- int (Suc k) + 1 = - int k" by simp
    then have p2: "(of_int b :: rat) powi (- int (Suc k) + 1) = 1 / of_int b ^ k"
      by (simp only: power_int_minus power_int_of_nat inverse_eq_divide)
    from lo hi show ?thesis
      unfolding fl p1 p2 by simp
  qed
  then show "of_int b powi floorLog b a \<le> a" "a < of_int b powi (floorLog b a + 1)"
    by simp_all
qed


lemma pow2_pos [simp]: "0 < (2 :: rat) powi e"
  by simp

lemma pow2_add: "(2 :: rat) powi (a + b) = 2 powi a * 2 powi b"
  by (simp add: power_int_add)

lemma pow2_diff: "(2 :: rat) powi (a - b) = 2 powi a / 2 powi b"
  by (simp add: power_int_diff)

lemma pow2_mono: "e \<le> e' \<Longrightarrow> (2 :: rat) powi e \<le> 2 powi e'"
  by (rule power_int_increasing) simp_all

lemma pow2_less_imp: "(2 :: rat) powi e < 2 powi e' \<Longrightarrow> e < e'"
  using pow2_mono [of e' e] by (cases "e < e'") simp_all

lemma pow2_nat: "0 \<le> e \<Longrightarrow> (2 :: rat) powi e = of_int (2 ^ nat e)"
  by (simp add: power_int_def)

lemma floorLog2_bounds:
  assumes "0 < a"
  shows "2 powi floorLog 2 a \<le> a" and "a < 2 powi (floorLog 2 a + 1)"
  using floorLog_bounds [of 2 a] assms by simp_all

lemma floorLog2_unique:
  assumes "2 powi e \<le> a" and "a < 2 powi (e + 1)"
  shows "floorLog 2 a = e"
proof -
  have "0 < a" using assms(1) pow2_pos [of e] by linarith
  note b = floorLog2_bounds [OF this]
  from b(1) assms(2) have "floorLog 2 a < e + 1"
    by (intro pow2_less_imp) linarith
  moreover from assms(1) b(2) have "e < floorLog 2 a + 1"
    by (intro pow2_less_imp) linarith
  ultimately show ?thesis by simp
qed

lemma rhe_of_int [simp]: "roundHalfEven (of_int n) = n"
  by (simp add: roundHalfEven_def)

lemma rhe_cases: "roundHalfEven y = \<lfloor>y\<rfloor> \<or> roundHalfEven y = \<lfloor>y\<rfloor> + 1"
  by (simp add: roundHalfEven_def Let_def)

lemma rhe_bounds:
  shows "y - 1 / 2 \<le> of_int (roundHalfEven y)" and "of_int (roundHalfEven y) \<le> y + 1 / 2"
proof -
  define n where "n = \<lfloor>y\<rfloor>"
  define f where "f = y - of_int n"
  have r: "roundHalfEven y
      = (if f < 1 / 2 then n else if 1 / 2 < f then n + 1 else if even n then n else n + 1)"
    by (simp add: roundHalfEven_def Let_def n_def f_def)
  have "roundHalfEven y = n \<and> f \<le> 1 / 2 \<or> roundHalfEven y = n + 1 \<and> 1 / 2 \<le> f"
    unfolding r by (cases "f < 1 / 2"; cases "1 / 2 < f"; cases "even n") simp_all
  moreover have "y = of_int n + f" by (simp add: f_def)
  moreover have "0 \<le> f" "f < 1" unfolding f_def n_def by linarith+
  ultimately have "y - 1 / 2 \<le> of_int (roundHalfEven y) \<and> of_int (roundHalfEven y) \<le> y + 1 / 2"
    by auto
  then show "y - 1 / 2 \<le> of_int (roundHalfEven y)" "of_int (roundHalfEven y) \<le> y + 1 / 2"
    by simp_all
qed

lemma rhe_mono:
  assumes "y \<le> z"
  shows "roundHalfEven y \<le> roundHalfEven z"
proof (cases "\<lfloor>y\<rfloor> < \<lfloor>z\<rfloor>")
  case True
  have "roundHalfEven y \<le> \<lfloor>y\<rfloor> + 1" using rhe_cases [of y] by auto
  moreover have "\<lfloor>z\<rfloor> \<le> roundHalfEven z" using rhe_cases [of z] by auto
  ultimately show ?thesis using True by simp
next
  case False
  moreover have "\<lfloor>y\<rfloor> \<le> \<lfloor>z\<rfloor>" using assms by (rule floor_mono)
  ultimately have "\<lfloor>y\<rfloor> = \<lfloor>z\<rfloor>" by simp
  with assms show ?thesis
    by (auto simp add: roundHalfEven_def Let_def)
qed

lemma rhe_le: "y \<le> of_int m \<Longrightarrow> roundHalfEven y \<le> m"
  using rhe_mono [of y "of_int m"] by simp

lemma rhe_ge: "of_int m \<le> y \<Longrightarrow> m \<le> roundHalfEven y"
  using rhe_mono [of "of_int m" y] by simp

lemma roundToDouble_neg: "roundToDouble (- x) = jneg (roundToDouble x)"
proof (cases x "0 :: rat" rule: linorder_cases)
  case less
  then show ?thesis
    by (simp add: roundToDouble_def Let_def if_distrib [of jneg] split del: if_split cong: if_cong)
next
  case equal
  then show ?thesis by (simp add: roundToDouble_def)
next
  case greater
  then show ?thesis
    by (simp add: roundToDouble_def Let_def if_distrib [of jneg] split del: if_split cong: if_cong)
qed

lemma roundToDouble_pos:
  assumes "0 < x" and "floorLog 2 x < 1024"
  defines "E \<equiv> max (floorLog 2 x) (- 1022)"
  defines "n \<equiv> roundHalfEven (x / 2 powi (E - 52))"
  shows "roundToDouble x
         = (if E = 1023 \<and> n = 2 ^ 53 then PosInf else Finite (of_int n * 2 powi (E - 52)))"
    and "0 \<le> n" and "n \<le> 2 ^ 53"
    and "- 1022 \<le> floorLog 2 x \<Longrightarrow> 2 ^ 52 \<le> n"
proof -
  show "roundToDouble x
         = (if E = 1023 \<and> n = 2 ^ 53 then PosInf else Finite (of_int n * 2 powi (E - 52)))"
    using assms(1,2)
    by (simp add: roundToDouble_def Let_def E_def n_def split del: if_split cong: if_cong)
  have "0 \<le> x / 2 powi (E - 52)" using assms(1) by simp
  then show "0 \<le> n" unfolding n_def using rhe_ge [of 0] by simp
  have "x < 2 powi (floorLog 2 x + 1)" using floorLog2_bounds [OF assms(1)] by simp
  also have "\<dots> \<le> 2 powi (E + 1)" by (rule pow2_mono) (simp add: E_def)
  finally have "x / 2 powi (E - 52) < 2 powi (E + 1) / 2 powi (E - 52)"
    by (simp add: divide_strict_right_mono)
  also have "2 powi (E + 1) / 2 powi (E - 52) = (2 :: rat) powi 53"
    by (simp flip: pow2_diff)
  finally have "x / 2 powi (E - 52) \<le> of_int (2 ^ 53)" by simp
  then show "n \<le> 2 ^ 53" unfolding n_def by (rule rhe_le)
  show "2 ^ 52 \<le> n" if "- 1022 \<le> floorLog 2 x"
  proof -
    from that have e: "E = floorLog 2 x" by (simp add: E_def)
    have "2 powi E \<le> x" unfolding e using floorLog2_bounds [OF assms(1)] by simp
    then have "2 powi E / 2 powi (E - 52) \<le> x / 2 powi (E - 52)"
      by (simp add: divide_right_mono)
    moreover have "2 powi E / 2 powi (E - 52) = (2 :: rat) powi 52"
      by (simp flip: pow2_diff)
    ultimately have "of_int (2 ^ 52) \<le> x / 2 powi (E - 52)" by simp
    then show ?thesis unfolding n_def by (rule rhe_ge)
  qed
qed


lemma pow2_numeral: "(2 :: rat) powi 53 = of_int (2 ^ 53)" "(2 :: rat) powi 52 = of_int (2 ^ 52)"
  by simp_all

lemma roundToDouble_exact_pos:
  assumes "0 < m" and "m \<le> 2 ^ 53" and "- 1074 \<le> j"
    and "of_int m * 2 powi j < (2 :: rat) powi 1024"
  shows "roundToDouble (of_int m * 2 powi j) = Finite (of_int m * 2 powi j)"
proof -
  define x :: rat where "x = of_int m * 2 powi j"
  have xpos: "0 < x" using assms(1) by (simp add: x_def)
  define f where "f = floorLog 2 x"
  note fb = floorLog2_bounds [OF xpos, folded f_def]
  have f1024: "f < 1024"
    using fb(1) assms(4) by (intro pow2_less_imp) (simp add: x_def)
  define E where "E = max f (- 1022)"
  have "\<exists>N. x / 2 powi (E - 52) = of_int N"
  proof (cases "m = 2 ^ 53")
    case True
    then have x53: "x = 2 powi (53 + j)"
      unfolding x_def pow2_add by simp
    have "x < 2 powi (53 + j + 1)"
      unfolding x53 by (rule power_int_strict_increasing) simp_all
    with x53 have "f = 53 + j"
      unfolding f_def by (intro floorLog2_unique) simp_all
    with assms(3) have "E = 53 + j" by (simp add: E_def)
    then have "E - 52 = j + 1" by simp
    then have "x / 2 powi (E - 52) = 2 powi (53 + j) / 2 powi (j + 1)"
      by (simp only: x53)
    also have "\<dots> = 2 powi (53 + j - (j + 1))" by (rule pow2_diff [symmetric])
    also have "53 + j - (j + 1) = 52" by simp
    finally have "x / 2 powi (E - 52) = of_int (2 ^ 52)" by simp
    then show ?thesis ..
  next
    case False
    with assms(2) have "m < 2 ^ 53" by simp
    then have "(of_int m :: rat) < of_int (2 ^ 53)" by (simp only: of_int_less_iff)
    then have "x < 2 powi 53 * 2 powi j"
      unfolding x_def by (simp add: mult_strict_right_mono)
    then have "x < 2 powi (53 + j)" by (simp add: pow2_add)
    with fb(1) have "f < 53 + j" by (intro pow2_less_imp) linarith
    with assms(3) have d: "0 \<le> j - (E - 52)" by (simp add: E_def)
    have "x / 2 powi (E - 52) = of_int m * 2 powi (j - (E - 52))"
      by (simp add: x_def pow2_diff)
    also have "\<dots> = of_int (m * 2 ^ nat (j - (E - 52)))"
      by (simp add: pow2_nat [OF d])
    finally show ?thesis ..
  qed
  then obtain N where N: "x / 2 powi (E - 52) = of_int N" ..
  then have xN: "x = of_int N * 2 powi (E - 52)" by (simp add: field_simps)
  have "\<not> (E = 1023 \<and> N = 2 ^ 53)"
  proof
    assume "E = 1023 \<and> N = 2 ^ 53"
    then have "x = 2 powi 53 * 2 powi 971" using xN by simp
    then have "x = 2 powi 1024" by (simp flip: pow2_add)
    with assms(4) show False by (simp add: x_def)
  qed
  with roundToDouble_pos(1) [OF xpos f1024 [unfolded f_def]] N xN
  show ?thesis
    unfolding x_def [symmetric] E_def f_def by (simp del: power_int_numeral)
qed

lemma roundToDouble_exact:
  assumes "\<bar>m\<bar> \<le> 2 ^ 53" and "- 1074 \<le> j"
    and "\<bar>of_int m * 2 powi j\<bar> < (2 :: rat) powi 1024"
  shows "roundToDouble (of_int m * 2 powi j) = Finite (of_int m * 2 powi j)"
proof (cases m "0 :: int" rule: linorder_cases)
  case equal
  then show ?thesis by (simp add: roundToDouble_def)
next
  case greater
  with assms show ?thesis
    by (intro roundToDouble_exact_pos) (simp_all add: abs_mult)
next
  case less
  with assms have "roundToDouble (of_int (- m) * 2 powi j) = Finite (of_int (- m) * 2 powi j)"
    by (intro roundToDouble_exact_pos) (simp_all add: abs_mult)
  then have "jneg (roundToDouble (of_int m * 2 powi j)) = Finite (- (of_int m * 2 powi j))"
    using roundToDouble_neg [of "of_int m * 2 powi j"] by simp
  then show ?thesis
    by (cases "roundToDouble (of_int m * 2 powi j)") simp_all
qed

lemma roundToDouble_int:
  assumes "\<bar>m\<bar> \<le> 2 ^ 53"
  shows "roundToDouble (of_int m) = Finite (of_int m)"
proof -
  have "\<bar>of_int m :: rat\<bar> \<le> of_int (2 ^ 53)"
    using assms by (simp only: of_int_abs [symmetric] of_int_le_iff)
  then have "\<bar>of_int m :: rat\<bar> < 2 powi 1024" by simp
  with roundToDouble_exact [OF assms, of 0] show ?thesis by simp
qed


lemma roundToDouble_idem:
  assumes "roundToDouble x = Finite r"
  shows "roundToDouble r = Finite r"
proof -
  have pos: "roundToDouble r = Finite r" if x: "0 < x" and r: "roundToDouble x = Finite r" for x r
  proof -
    have f: "floorLog 2 x < 1024"
      using r x by (auto simp add: roundToDouble_def split: if_splits)
    define E where "E = max (floorLog 2 x) (- 1022)"
    define n where "n = roundHalfEven (x / 2 powi (E - 52))"
    note d = roundToDouble_pos [OF x f, folded E_def n_def]
    from d(1) r have novf: "\<not> (E = 1023 \<and> n = 2 ^ 53)" and rn: "r = of_int n * 2 powi (E - 52)"
      by (auto split: if_splits)
    have E: "- 1022 \<le> E" "E \<le> 1023" using f by (simp_all add: E_def)
    have "of_int n * 2 powi (E - 52) < (2 :: rat) powi 1024"
    proof (cases "E = 1023")
      case True
      with novf d(3) have "n < 2 ^ 53" by simp
      then have "(of_int n :: rat) < of_int (2 ^ 53)" by (simp only: of_int_less_iff)
      then have "of_int n * 2 powi (E - 52) < (2 :: rat) powi 53 * 2 powi (E - 52)"
        by (simp add: mult_strict_right_mono)
      also have "\<dots> = 2 powi 1024" unfolding True by (simp flip: pow2_add)
      finally show ?thesis .
    next
      case False
      with E have E2: "E + 1 < 1024" by simp
      from d(3) have "(of_int n :: rat) \<le> of_int (2 ^ 53)" by (simp only: of_int_le_iff)
      then have "of_int n * 2 powi (E - 52) \<le> (2 :: rat) powi 53 * 2 powi (E - 52)"
        by (simp add: mult_right_mono)
      also have "\<dots> = 2 powi (53 + (E - 52))" by (rule pow2_add [symmetric])
      also have "53 + (E - 52) = E + 1" by simp
      also have "(2 :: rat) powi (E + 1) < 2 powi 1024"
        using E2 by (intro power_int_strict_increasing) simp_all
      finally show ?thesis .
    qed
    moreover have "\<bar>n\<bar> \<le> 2 ^ 53" using d(2,3) by simp
    moreover have "- 1074 \<le> E - 52" using E by simp
    ultimately show ?thesis
      unfolding rn using d(2) by (intro roundToDouble_exact) (simp_all add: abs_mult)
  qed
  show ?thesis
  proof (cases x "0 :: rat" rule: linorder_cases)
    case equal
    with assms show ?thesis by (simp add: roundToDouble_def)
  next
    case greater
    then show ?thesis using assms by (rule pos)
  next
    case less
    then have "0 < - x" by simp
    moreover have "roundToDouble (- x) = Finite (- r)"
      using assms by (simp add: roundToDouble_neg)
    ultimately have "roundToDouble (- r) = Finite (- r)" by (rule pos)
    then show ?thesis
      using roundToDouble_neg [of r] by (cases "roundToDouble r") simp_all
  qed
qed


lemma roundToDouble_not_NaN [simp]: "roundToDouble x \<noteq> NaN"
  by (simp add: roundToDouble_def Let_def)

lemma jge_refl: "a \<noteq> NaN \<Longrightarrow> jge a a"
  by (cases a) simp_all

lemma jge_trans: "jge a b \<Longrightarrow> jge b c \<Longrightarrow> jge a c"
  by (cases a; cases b; cases c) simp_all

lemma jge_jneg: "jge (jneg a) (jneg b) = jge b a"
  by (cases a; cases b) simp_all

lemma jge_PosInf: "b \<noteq> NaN \<Longrightarrow> jge PosInf b"
  by (cases b) simp_all

lemma roundToDouble_nonneg:
  assumes "0 \<le> y"
  shows "jge (roundToDouble y) (Finite 0)"
proof (cases "y = 0")
  case True
  then show ?thesis by (simp add: roundToDouble_def)
next
  case False
  with assms have y: "0 < y" by simp
  show ?thesis
  proof (cases "floorLog 2 y < 1024")
    case True
    from roundToDouble_pos(1,2) [OF y True] show ?thesis
      by (simp split: if_splits)
  next
    case False
    with y show ?thesis by (simp add: roundToDouble_def)
  qed
qed

lemma roundToDouble_nonpos:
  assumes "x \<le> 0"
  shows "jge (Finite 0) (roundToDouble x)"
proof -
  from assms have "jge (roundToDouble (- x)) (Finite 0)"
    by (intro roundToDouble_nonneg) simp
  then have "jge (jneg (roundToDouble x)) (jneg (Finite 0))"
    by (simp add: roundToDouble_neg)
  then show ?thesis by (simp only: jge_jneg)
qed

lemma roundToDouble_mono_pos:
  assumes "0 < x" and "x \<le> y"
  shows "jge (roundToDouble y) (roundToDouble x)"
proof -
  from assms have y: "0 < y" by simp
  note bx = floorLog2_bounds [OF assms(1)] and by' = floorLog2_bounds [OF y]
  have "2 powi floorLog 2 x < (2 :: rat) powi (floorLog 2 y + 1)"
    using bx(1) by'(2) assms(2) by linarith
  then have ff: "floorLog 2 x \<le> floorLog 2 y"
    using pow2_less_imp by fastforce
  show ?thesis
  proof (cases "floorLog 2 y < 1024")
    case False
    with y have "roundToDouble y = PosInf" by (simp add: roundToDouble_def)
    then show ?thesis by (simp add: jge_PosInf)
  next
    case fy: True
    with ff have fx: "floorLog 2 x < 1024" by simp
    define Ex where "Ex = max (floorLog 2 x) (- 1022)"
    define Ey where "Ey = max (floorLog 2 y) (- 1022)"
    define nx where "nx = roundHalfEven (x / 2 powi (Ex - 52))"
    define ny where "ny = roundHalfEven (y / 2 powi (Ey - 52))"
    note dx = roundToDouble_pos [OF assms(1) fx, folded Ex_def nx_def]
    note dy = roundToDouble_pos [OF y fy, folded Ey_def ny_def]
    from ff have EE: "Ex \<le> Ey" by (simp add: Ex_def Ey_def)
    show ?thesis
    proof (cases "Ex = Ey")
      case True
      have "x / 2 powi (Ex - 52) \<le> y / 2 powi (Ey - 52)"
        unfolding True using assms(2) by (simp add: divide_right_mono)
      then have nn: "nx \<le> ny" unfolding nx_def ny_def by (rule rhe_mono)
      then have "of_int nx * (2 :: rat) powi (Ex - 52) \<le> of_int ny * 2 powi (Ey - 52)"
        unfolding True by (simp add: mult_right_mono)
      with nn dx(3) dy(3) show ?thesis
        unfolding dx(1) dy(1) True by (simp split: if_splits)
    next
      case False
      with EE have lt: "Ex < Ey" by simp
      then have "- 1022 < Ey" by (simp add: Ex_def)
      then have fyE: "Ey = floorLog 2 y" "- 1022 \<le> floorLog 2 y" by (simp_all add: Ey_def)
      from dy(4) [OF fyE(2)] have n52: "(of_int (2 ^ 52) :: rat) \<le> of_int ny"
        by (simp only: of_int_le_iff)
      have "(2 :: rat) powi Ey = 2 powi (52 + (Ey - 52))" by simp
      also have "\<dots> = 2 powi 52 * 2 powi (Ey - 52)" by (rule pow2_add)
      also have "\<dots> \<le> of_int ny * 2 powi (Ey - 52)"
        using n52 by (simp add: mult_right_mono)
      finally have lowy: "(2 :: rat) powi Ey \<le> of_int ny * 2 powi (Ey - 52)" .
      from dx(3) have "(of_int nx :: rat) \<le> of_int (2 ^ 53)" by (simp only: of_int_le_iff)
      then have "of_int nx * 2 powi (Ex - 52) \<le> (2 :: rat) powi 53 * 2 powi (Ex - 52)"
        by (simp add: mult_right_mono)
      also have "\<dots> = 2 powi (53 + (Ex - 52))" by (rule pow2_add [symmetric])
      also have "53 + (Ex - 52) = Ex + 1" by simp
      also have "(2 :: rat) powi (Ex + 1) \<le> 2 powi Ey" using lt by (intro pow2_mono) simp
      finally have le: "of_int nx * (2 :: rat) powi (Ex - 52) \<le> of_int ny * 2 powi (Ey - 52)"
        using lowy by linarith
      have "Ex \<noteq> 1023" using lt fy fyE by simp
      with le show ?thesis
        unfolding dx(1) dy(1) by (simp split: if_splits)
    qed
  qed
qed

lemma roundToDouble_mono:
  assumes "x \<le> y"
  shows "jge (roundToDouble y) (roundToDouble x)"
proof -
  consider "0 < x" | "x \<le> 0" "0 \<le> y" | "y < 0" by linarith
  then show ?thesis
  proof cases
    case 1
    then show ?thesis using assms by (rule roundToDouble_mono_pos)
  next
    case 2
    then show ?thesis
      using jge_trans [OF roundToDouble_nonneg roundToDouble_nonpos] by blast
  next
    case 3
    with assms have "0 < - y" "- y \<le> - x" by simp_all
    then have "jge (roundToDouble (- x)) (roundToDouble (- y))"
      by (rule roundToDouble_mono_pos)
    then show ?thesis by (simp only: roundToDouble_neg jge_jneg)
  qed
qed

lemma roundToDouble_upper:
  assumes "isDouble d" and "x \<le> d"
  shows "jge (Finite d) (roundToDouble x)"
  using roundToDouble_mono [OF assms(2)] assms(1) by (simp add: isDouble_def)

lemma roundToDouble_lower:
  assumes "isDouble d" and "d \<le> x"
  shows "jge (roundToDouble x) (Finite d)"
  using roundToDouble_mono [OF assms(2)] assms(1) by (simp add: isDouble_def)

subsection \<open>The result of the engine, branch by branch\<close>

lemma calc_pending:
  assumes "selectionCombo \<notin> {''Home Team'', ''Away Team'', ''Over'', ''Under''}"
  shows "calculateEnhancedPredictedResult selectionCombo line betTimeScore currentScore = ''Pending''"
  using assms by (simp add: calculateEnhancedPredictedResult_def Let_def)

lemma calc_totals:
  assumes "selectionCombo = ''Over'' \<or> selectionCombo = ''Under''"
  shows "calculateEnhancedPredictedResult selectionCombo line betTimeScore currentScore =
     resultLabel (round2
        (if selectionCombo = ''Over''
         then jsub (jadd (toNumber (element (map Number (splitStr CHR ''-'' currentScore)) 0))
                         (toNumber (element (map Number (splitStr CHR ''-'' currentScore)) 1))) line
         else jsub line (jadd (toNumber (element (map Number (splitStr CHR ''-'' currentScore)) 0))
                         (toNumber (element (map Number (splitStr CHR ''-'' currentScore)) 1)))))
      @ '' - '' @ selectionCombo @ '' ('' @ numberToString line @ '') (''
      @ numberToString (jadd (toNumber (element (map Number (splitStr CHR ''-'' currentScore)) 0))
                         (toNumber (element (map Number (splitStr CHR ''-'' currentScore)) 1)))
      @ '' goals)''"
  using assms
proof
  assume "selectionCombo = ''Over''"
  then show ?thesis
    by (simp add: calculateEnhancedPredictedResult_def Let_def round2_def resultLabel_def
        parseFloat_def split del: if_split cong: if_cong)
next
  assume "selectionCombo = ''Under''"
  then show ?thesis
    by (simp add: calculateEnhancedPredictedResult_def Let_def round2_def resultLabel_def
        parseFloat_def split del: if_split cong: if_cong)
qed

lemma calc_handicap_absent:
  assumes "selectionCombo = ''Home Team'' \<or> selectionCombo = ''Away Team''"
  shows "calculateEnhancedPredictedResult selectionCombo line None currentScore =
     resultLabel (round2 (jadd
        (if selectionCombo = ''Home Team''
         then jsub (toNumber (element (map Number (splitStr CHR ''-'' currentScore)) 0))
                   (toNumber (element (map Number (splitStr CHR ''-'' currentScore)) 1))
         else jsub (toNumber (element (map Number (splitStr CHR ''-'' currentScore)) 1))
                   (toNumber (element (map Number (splitStr CHR ''-'' currentScore)) 0))) line))
      @ '' - '' @ selectionCombo @ '' ('' @ numberToString line @ '') (''
      @ toString (element (map Number (splitStr CHR ''-'' currentScore)) 0) @ ''-''
      @ toString (element (map Number (splitStr CHR ''-'' currentScore)) 1) @ '')''"
  using assms
proof
  assume "selectionCombo = ''Home Team''"
  then show ?thesis
    by (simp add: calculateEnhancedPredictedResult_def Let_def round2_def resultLabel_def
        parseFloat_def split del: if_split cong: if_cong)
next
  assume "selectionCombo = ''Away Team''"
  then show ?thesis
    by (simp add: calculateEnhancedPredictedResult_def Let_def round2_def resultLabel_def
        parseFloat_def split del: if_split cong: if_cong)
qed


lemma calc_unused:
  assumes "\<not> snapshotUsed betTimeScore"
  shows "calculateEnhancedPredictedResult selectionCombo line betTimeScore currentScore =
         calculateEnhancedPredictedResult selectionCombo line None currentScore"
proof (cases betTimeScore)
  case None
  then show ?thesis by simp
next
  case (Some b)
  consider (empty) "b = []" | (na) "b = ''N/A''"
    | (parts) "b \<noteq> []" "b \<noteq> ''N/A''" "length (splitStr CHR ''-'' (removeSpaces b)) \<noteq> 2"
    | (home) "b \<noteq> []" "b \<noteq> ''N/A''" "length (splitStr CHR ''-'' (removeSpaces b)) = 2"
        "isNaN (parseInt (splitStr CHR ''-'' (removeSpaces b) ! 0))"
    | (away) "b \<noteq> []" "b \<noteq> ''N/A''" "length (splitStr CHR ''-'' (removeSpaces b)) = 2"
        "isNaN (parseInt (splitStr CHR ''-'' (removeSpaces b) ! 1))"
    using assms Some by (auto simp add: snapshotUsed_def)
  then show ?thesis
  proof cases
    case empty
    with Some show ?thesis
      by (simp add: calculateEnhancedPredictedResult_def Let_def split del: if_split cong: if_cong)
  next
    case na
    with Some show ?thesis
      by (simp add: calculateEnhancedPredictedResult_def Let_def split del: if_split cong: if_cong)
  next
    case parts
    with Some show ?thesis
      by (simp add: calculateEnhancedPredictedResult_def Let_def split del: if_split cong: if_cong)
  next
    case home
    with Some show ?thesis
      by (simp add: calculateEnhancedPredictedResult_def Let_def split del: if_split cong: if_cong)
  next
    case away
    with Some show ?thesis
      by (simp add: calculateEnhancedPredictedResult_def Let_def split del: if_split cong: if_cong)
  qed
qed

lemma calc_handicap_used:
  assumes "selectionCombo = ''Home Team'' \<or> selectionCombo = ''Away Team''"
    and "snapshotUsed (Some b)"
  shows "calculateEnhancedPredictedResult selectionCombo line (Some b) currentScore =
     resultLabel (round2 (jadd
        (if selectionCombo = ''Home Team''
         then jsub (jsub (toNumber (element (map Number (splitStr CHR ''-'' currentScore)) 0))
                         (parseInt (splitStr CHR ''-'' (removeSpaces b) ! 0)))
                   (jsub (toNumber (element (map Number (splitStr CHR ''-'' currentScore)) 1))
                         (parseInt (splitStr CHR ''-'' (removeSpaces b) ! 1)))
         else jsub (jsub (toNumber (element (map Number (splitStr CHR ''-'' currentScore)) 1))
                         (parseInt (splitStr CHR ''-'' (removeSpaces b) ! 1)))
                   (jsub (toNumber (element (map Number (splitStr CHR ''-'' currentScore)) 0))
                         (parseInt (splitStr CHR ''-'' (removeSpaces b) ! 0)))) line))
      @ '' - '' @ selectionCombo @ '' ('' @ numberToString line @ '') (''
      @ numberToString (jsub (toNumber (element (map Number (splitStr CHR ''-'' currentScore)) 0))
                             (parseInt (splitStr CHR ''-'' (removeSpaces b) ! 0))) @ ''-''
      @ numberToString (jsub (toNumber (element (map Number (splitStr CHR ''-'' currentScore)) 1))
                             (parseInt (splitStr CHR ''-'' (removeSpaces b) ! 1))) @ '')''"
proof -
  have used: "b \<noteq> []" "b \<noteq> ''N/A''" "length (splitStr CHR ''-'' (removeSpaces b)) = 2"
    "\<not> isNaN (parseInt (splitStr CHR ''-'' (removeSpaces b) ! 0))"
    "\<not> isNaN (parseInt (splitStr CHR ''-'' (removeSpaces b) ! 1))"
    using assms(2) by (simp_all add: snapshotUsed_def)
  from assms(1) show ?thesis
  proof
    assume "selectionCombo = ''Home Team''"
    with used show ?thesis
      by (simp add: calculateEnhancedPredictedResult_def Let_def round2_def resultLabel_def
          parseFloat_def split del: if_split cong: if_cong)
  next
    assume "selectionCombo = ''Away Team''"
    with used show ?thesis
      by (simp add: calculateEnhancedPredictedResult_def Let_def round2_def resultLabel_def
          parseFloat_def split del: if_split cong: if_cong)
  qed
qed


lemma scoreReads_elements:
  assumes "scoreReads currentScore h a"
  shows "element (map Number (splitStr CHR ''-'' currentScore)) 0 = JNum (Finite h)"
    and "element (map Number (splitStr CHR ''-'' currentScore)) 1 = JNum (Finite a)"
    and "element (map Number (splitStr CHR ''-'' currentScore)) (Suc 0) = JNum (Finite a)"
  using assms by (simp_all add: scoreReads_def element_def)

lemma snapshotReads_used:
  assumes "snapshotReads (Some b) bh ba"
  shows "snapshotUsed (Some b)"
    and "parseInt (splitStr CHR ''-'' (removeSpaces b) ! 0) = Finite bh"
    and "parseInt (splitStr CHR ''-'' (removeSpaces b) ! 1) = Finite ba"
    and "parseInt (splitStr CHR ''-'' (removeSpaces b) ! Suc 0) = Finite ba"
proof -
  let ?parts = "splitStr CHR ''-'' (removeSpaces b)"
  from assms have m: "map parseInt ?parts = [Finite bh, Finite ba]"
    by (simp add: snapshotReads_def)
  then have len: "length ?parts = 2"
    by (metis length_map length_Cons list.size(3) One_nat_def Suc_1)
  from m len show p0: "parseInt (?parts ! 0) = Finite bh"
    by (metis nth_map nth_Cons_0 zero_less_numeral)
  from m len show p1: "parseInt (?parts ! 1) = Finite ba"
    by (metis nth_map nth_Cons_0 nth_Cons_Suc One_nat_def one_less_numeral_iff semiring_norm(76))
  have "b \<noteq> []" using len by (auto simp add: removeSpaces_def)
  moreover have "b \<noteq> ''N/A''" using len by (auto simp add: removeSpaces_def isSpace_def)
  ultimately show "snapshotUsed (Some b)"
    using len p0 p1 by (simp add: snapshotUsed_def isNaN_def)
  from p1 show "parseInt (?parts ! Suc 0) = Finite ba" by simp
qed

lemma resultLabel_classify:
  "resultLabel (Finite m) = (case spec_classify m of None \<Rightarrow> ''Loss'' | Some oc \<Rightarrow> label oc)"
  by (simp add: resultLabel_def spec_classify_def jeq_def)

subsection \<open>The margin that the engine computes\<close>

lemma isDouble_0 [simp]: "isDouble 0"
  by (simp add: isDouble_def roundToDouble_def)

lemma isDouble_roundToDouble: "roundToDouble x = Finite r \<Longrightarrow> isDouble r"
  unfolding isDouble_def by (rule roundToDouble_idem)

lemma Number_isDouble:
  assumes "Number s = Finite h"
  shows "isDouble h"
  using assms
  by (auto simp add: Number_def Let_def nonDecimal_def isDouble_roundToDouble
      split: if_splits option.splits prod.splits)

lemma scoreReads_isDouble:
  assumes "scoreReads currentScore h a"
  shows "isDouble h" and "isDouble a"
proof -
  from assms obtain s t where "Number s = Finite h" "Number t = Finite a"
    by (auto simp add: scoreReads_def map_eq_Cons_conv)
  then show "isDouble h" "isDouble a" by (simp_all add: Number_isDouble)
qed

lemma jsub_zero: "isDouble x \<Longrightarrow> jsub (Finite x) (Finite 0) = Finite x"
  by (simp add: jsub_def isDouble_def)

lemma calc_margin:
  assumes sel: "selectionType \<in> {''Home Team'', ''Away Team'', ''Over'', ''Under''}"
    and cur: "scoreReads currentScore h a"
    and bet: "snapshotReads betTimeScore bh ba"
  shows "startsWith (calculateEnhancedPredictedResult selectionType line betTimeScore currentScore)
           (resultLabel (computedMargin selectionType line (bh, ba) (h, a)))"
proof -
  note el = scoreReads_elements [OF cur]
  note dbl = scoreReads_isDouble [OF cur]
  consider (handicap) "selectionType = ''Home Team'' \<or> selectionType = ''Away Team''"
    | (totals) "selectionType = ''Over'' \<or> selectionType = ''Under''"
    using sel by auto
  then show ?thesis
  proof cases
    case handicap
    show ?thesis
    proof (cases betTimeScore)
      case None
      with bet have "bh = 0" "ba = 0" by (simp_all add: snapshotReads_def)
      with handicap None show ?thesis
        by (auto simp add: calc_handicap_absent el computedMargin_def jsub_zero [OF dbl(1)]
            jsub_zero [OF dbl(2)])
    next
      case (Some b)
      with bet have r: "snapshotReads (Some b) bh ba" by simp
      note u = snapshotReads_used [OF r]
      from handicap Some show ?thesis
        by (auto simp add: calc_handicap_used [OF _ u(1)] u(2,3,4) el computedMargin_def)
    qed
  next
    case totals
    then show ?thesis
      by (auto simp add: calc_totals el computedMargin_def)
  qed
qed

subsection \<open>Quarter lines and bounded goal counts are computed exactly\<close>



lemma jsub_int:
  assumes "\<bar>m - n\<bar> \<le> 2 ^ 53"
  shows "jsub (Finite (of_int m)) (Finite (of_int n)) = Finite (of_int (m - n))"
proof -
  have e: "(of_int m + - of_int n :: rat) = of_int (m - n)" by simp
  show ?thesis unfolding jsub_def jneg.simps jadd.simps e
    by (rule roundToDouble_int [OF assms])
qed







subsection \<open>Score strings of goal counts are read back\<close>

text \<open>
  The score string \<open>scoreString h a\<close> of two goal counts below \<open>2 ^ 53\<close> is read by
  \<^verbatim>\<open>Number\<close> and by \<^verbatim>\<open>parseInt\<close> as \<open>h\<close> and \<open>a\<close>, so that the hypotheses
  \<open>scoreReads\<close> and \<open>snapshotReads\<close> of the properties below hold for all scores written
  this way.
\<close>

declare decDigits.simps [simp del]

lemma decimal_digitIn: "decimal c \<Longrightarrow> digitIn 10 c = Some (of_char c - 48)"
  by (auto simp add: decimal_def digitIn_def digitValue_def)

lemma decimal_neq:
  assumes "decimal c"
  shows "c \<noteq> CHR ''-''" and "\<not> isSpace c" and "c \<noteq> CHR ''+''" and "c \<noteq> CHR ''I''"
  using assms by (auto simp add: decimal_def isSpace_def)

lemma decDigits_decimal: "0 \<le> n \<Longrightarrow> \<forall>c \<in> set (decDigits n). decimal c"
proof (induction n rule: decDigits.induct)
  case (1 n)
  have "0 \<le> n mod 10" "n mod 10 < 10" by simp_all
  then have "(n mod 10 + 48) mod 256 = n mod 10 + 48" by simp
  then have "decimal (char_of (n mod 10 + 48))"
    using \<open>0 \<le> n mod 10\<close> \<open>n mod 10 < 10\<close> by (simp add: decimal_def)
  moreover have "\<forall>c \<in> set (decDigits (n div 10)). decimal c" if "\<not> n < 10"
    using 1(1) [OF that] 1(2) by (simp add: pos_imp_zdiv_nonneg_iff)
  ultimately show ?case
    by (subst decDigits.simps) auto
qed

lemma decDigits_nonempty: "decDigits n \<noteq> []"
  by (subst decDigits.simps) simp

lemma spanDigits_decimals:
  assumes "\<forall>c \<in> set xs. decimal c"
  shows "spanDigits 10 (xs @ ys)
       = (map (\<lambda>c. of_char c - 48) xs @ fst (spanDigits 10 ys), snd (spanDigits 10 ys))"
  using assms
proof (induction xs)
  case Nil
  then show ?case by simp
next
  case (Cons c xs)
  then show ?case by (simp add: decimal_digitIn)
qed

lemma digitsValue_snoc: "digitsValue r (ds @ [d]) = digitsValue r ds * r + d"
  by (simp add: digitsValue_def)

lemma digitsValue_decDigits:
  "0 \<le> n \<Longrightarrow> digitsValue 10 (map (\<lambda>c. of_char c - 48) (decDigits n)) = n"
proof (induction n rule: decDigits.induct)
  case (1 n)
  have m: "0 \<le> n mod 10" "n mod 10 < 10" by simp_all
  then have c: "(of_char (char_of (n mod 10 + 48) :: char) :: int) - 48 = n mod 10" by simp
  show ?case
  proof (cases "n < 10")
    case True
    with 1(2) have "n mod 10 = n" by simp
    with True c show ?thesis
      by (subst decDigits.simps) (simp add: digitsValue_def)
  next
    case False
    with 1 have "digitsValue 10 (map (\<lambda>c. of_char c - 48) (decDigits (n div 10))) = n div 10"
      by (simp add: pos_imp_zdiv_nonneg_iff)
    with False c show ?thesis
      by (subst decDigits.simps) (simp add: digitsValue_snoc del: of_char_of)
  qed
qed

lemma startsWith_prefix_decimal:
  assumes "\<forall>c \<in> set s. decimal c" and "\<not> decimal x"
  shows "\<not> startsWith s [CHR ''0'', x]"
proof (cases s)
  case Nil
  then show ?thesis by simp
next
  case (Cons c cs)
  with assms show ?thesis by (cases cs) auto
qed

lemma decimals_plain:
  assumes "\<forall>c \<in> set s. decimal c" and "s \<noteq> []"
  shows "dropWhile isSpace s = s" and "trim s = s" and "takeSign s = (1, s)"
    and "s \<noteq> ''Infinity''"
    and "spanDigits 10 s = (map (\<lambda>c. of_char c - 48) s, [])"
proof -
  from assms obtain c cs where s: "s = c # cs" by (cases s) auto
  with assms have c: "decimal c" by simp
  show d: "dropWhile isSpace s = s"
    using s decimal_neq [OF c] by simp
  from assms have "decimal (last s)" by simp
  then have "\<not> isSpace (hd (rev s))"
    using assms(2) by (simp add: hd_rev decimal_neq)
  then have "dropWhile isSpace (rev s) = rev s"
    by (simp add: dropWhile_eq_self_iff)
  with d show "trim s = s" by (simp add: trim_def)
  show "takeSign s = (1, s)"
    using s decimal_neq [OF c] by simp
  show "s \<noteq> ''Infinity''"
    using s decimal_neq [OF c] by auto
  show "spanDigits 10 s = (map (\<lambda>c. of_char c - 48) s, [])"
    using spanDigits_decimals [OF assms(1), of "[]"] by simp
qed

lemma parseInt_decimals:
  assumes "\<forall>c \<in> set s. decimal c" and "s \<noteq> []"
  shows "parseInt s = roundToDouble (of_int (digitsValue 10 (map (\<lambda>c. of_char c - 48) s)))"
proof -
  have "\<not> decimal CHR ''x''" "\<not> decimal CHR ''X''" by (simp_all add: decimal_def)
  then have "\<not> startsWith s ''0x''" "\<not> startsWith s ''0X''"
    using startsWith_prefix_decimal [OF assms(1)] by blast+
  with assms(2) show ?thesis
    by (simp add: parseInt_def decimals_plain [OF assms])
qed

lemma Number_decimals:
  assumes "\<forall>c \<in> set s. decimal c" and "s \<noteq> []"
  shows "Number s = roundToDouble (of_int (digitsValue 10 (map (\<lambda>c. of_char c - 48) s)))"
proof -
  have "\<not> decimal CHR ''x''" "\<not> decimal CHR ''X''" "\<not> decimal CHR ''o''"
    "\<not> decimal CHR ''O''" "\<not> decimal CHR ''b''" "\<not> decimal CHR ''B''"
    by (simp_all add: decimal_def)
  then have "\<not> startsWith s ''0x''" "\<not> startsWith s ''0X''" "\<not> startsWith s ''0o''"
    "\<not> startsWith s ''0O''" "\<not> startsWith s ''0b''" "\<not> startsWith s ''0B''"
    using startsWith_prefix_decimal [OF assms(1)] by blast+
  moreover have "decimalLiteral s = Some (of_int (digitsValue 10 (map (\<lambda>c. of_char c - 48) s)))"
    using assms(2)
    by (simp add: decimalLiteral_def decimals_plain [OF assms] exponentPart_def digitsValue_def)
  ultimately show ?thesis
    using assms(2) by (simp add: Number_def Let_def decimals_plain [OF assms])
qed

lemma Number_natDigits:
  assumes "n < 2 ^ 53"
  shows "Number (natDigits n) = Finite (of_nat n)"
    and "parseInt (natDigits n) = Finite (of_nat n)"
proof -
  have "\<bar>int n\<bar> \<le> 2 ^ 53" using assms by simp
  then have r: "roundToDouble (of_int (int n)) = Finite (of_int (int n))"
    by (rule roundToDouble_int)
  have d: "\<forall>c \<in> set (decDigits (int n)). decimal c" "decDigits (int n) \<noteq> []"
    using decDigits_decimal [of "int n"] by (simp_all add: decDigits_nonempty)
  show "Number (natDigits n) = Finite (of_nat n)"
    unfolding natDigits_def Number_decimals [OF d] using r by (simp add: digitsValue_decDigits)
  show "parseInt (natDigits n) = Finite (of_nat n)"
    unfolding natDigits_def parseInt_decimals [OF d] using r by (simp add: digitsValue_decDigits)
qed

lemma splitStr_no_separator: "sep \<notin> set s \<Longrightarrow> splitStr sep s = [s]"
  by (induction s) auto

lemma splitStr_append: "sep \<notin> set s \<Longrightarrow> splitStr sep (s @ sep # t) = s # splitStr sep t"
  by (induction s) auto

lemma splitStr_scoreString: "splitStr CHR ''-'' (scoreString h a) = [natDigits h, natDigits a]"
proof -
  have "CHR ''-'' \<notin> set (natDigits n)" for n
    using decDigits_decimal [of "int n"] decimal_neq(1) by (auto simp add: natDigits_def)
  then show ?thesis
    by (simp add: scoreString_def splitStr_append splitStr_no_separator)
qed

lemma removeSpaces_scoreString: "removeSpaces (scoreString h a) = scoreString h a"
proof -
  have "\<not> isSpace c" if "c \<in> set (natDigits n)" for c n
    using decDigits_decimal [of "int n"] decimal_neq(2) that by (auto simp add: natDigits_def)
  moreover have "\<not> isSpace CHR ''-''" by (simp add: isSpace_def)
  ultimately show ?thesis
    by (auto simp add: removeSpaces_def scoreString_def filter_id_conv)
qed

lemma scoreReads_scoreString:
  assumes "h < 2 ^ 53" and "a < 2 ^ 53"
  shows "scoreReads (scoreString h a) (of_nat h) (of_nat a)"
  by (simp add: scoreReads_def splitStr_scoreString Number_natDigits [OF assms(1)]
      Number_natDigits [OF assms(2)])

lemma snapshotReads_scoreString:
  assumes "bh < 2 ^ 53" and "ba < 2 ^ 53"
  shows "snapshotReads (Some (scoreString bh ba)) (of_nat bh) (of_nat ba)"
  by (simp add: snapshotReads_def removeSpaces_scoreString splitStr_scoreString
      Number_natDigits [OF assms(1)] Number_natDigits [OF assms(2)])

section \<open>The properties\<close>




text \<open>
  C2. For a result of each of the five classes, with or without a detail suffix \<open>d\<close>,
  and all stake and odds, \<^verbatim>\<open>calculatePayout\<close> returns stake * odds for Win,
  stake + stake * (odds - 1) * 0.5 for Half Win, the stake for Push, half the stake for
  Half Loss and 0 for Loss, each operation being the one of JavaScript: for finite
  stake and odds the Win payout is the exact product rounded to binary64 (for stake 100
  and odds 1.1 the number 110.00000000000001). With stake 100 and odds 1.86 the five
  payouts are exactly 186, 143, 100, 50 and 0.
\<close>

theorem calculatePayout_formulas:
  "calculatePayout (''Win'' @ d) stake odds = jmul stake odds
   \<and> calculatePayout (''Half Win'' @ d) stake odds
       = jadd stake (jmul (jmul stake (jsub odds (Finite 1))) (Finite (1 / 2)))
   \<and> calculatePayout (''Push'' @ d) stake odds = stake
   \<and> calculatePayout (''Half Loss'' @ d) stake odds = jmul stake (Finite (1 / 2))
   \<and> calculatePayout (''Loss'' @ d) stake odds = Finite 0
   \<and> calculatePayout (''Win'' @ d) (Finite s) (Finite od) = roundToDouble (s * od)
   \<and> calculatePayout (''Half Loss'' @ d) (Finite s) (Finite od) = roundToDouble (s * (1 / 2))
   \<and> calculatePayout ''Win'' (Finite 100) (roundToDouble (186 / 100)) = Finite 186
   \<and> calculatePayout ''Half Win'' (Finite 100) (roundToDouble (186 / 100)) = Finite 143
   \<and> calculatePayout ''Push'' (Finite 100) (roundToDouble (186 / 100)) = Finite 100
   \<and> calculatePayout ''Half Loss'' (Finite 100) (roundToDouble (186 / 100)) = Finite 50
   \<and> calculatePayout ''Loss'' (Finite 100) (roundToDouble (186 / 100)) = Finite 0
   \<and> calculatePayout ''Win'' (Finite 100) (roundToDouble (11 / 10))
       = Finite (7740561859543041 / 70368744177664)"
proof -
  have branches: "calculatePayout (''Win'' @ d) stake odds = jmul stake odds"
    "calculatePayout (''Half Win'' @ d) stake odds
       = jadd stake (jmul (jmul stake (jsub odds (Finite 1))) (Finite (1 / 2)))"
    "calculatePayout (''Push'' @ d) stake odds = stake"
    "calculatePayout (''Half Loss'' @ d) stake odds = jmul stake (Finite (1 / 2))"
    "calculatePayout (''Loss'' @ d) stake odds = Finite 0"
    for stake odds
    by (simp_all add: calculatePayout_def parseFloat_def)
  have literal: "calculatePayout ''Win'' (Finite 100) (roundToDouble (186 / 100)) = Finite 186"
    "calculatePayout ''Half Win'' (Finite 100) (roundToDouble (186 / 100)) = Finite 143"
    "calculatePayout ''Push'' (Finite 100) (roundToDouble (186 / 100)) = Finite 100"
    "calculatePayout ''Half Loss'' (Finite 100) (roundToDouble (186 / 100)) = Finite 50"
    "calculatePayout ''Loss'' (Finite 100) (roundToDouble (186 / 100)) = Finite 0"
    "calculatePayout ''Win'' (Finite 100) (roundToDouble (11 / 10))
       = Finite (7740561859543041 / 70368744177664)"
    by code_simp+
  show ?thesis
    unfolding branches jmul.simps using literal [unfolded branches jmul.simps]
    by (intro conjI refl)
qed

text \<open>
  C3. For the selections Home Team and Away Team, a bet-time score that is read as
  \<open>bh\<close>-\<open>ba\<close> makes the engine evaluate the goals scored since then: the label is the
  one of the rounded sum of the line and the difference of \<open>h - bh\<close> and \<open>a - ba\<close>,
  each subtraction being the one of JavaScript, and the detail shows the two adjusted
  counts. For goal counts below \<open>2 ^ 51\<close> these subtractions are exact. With no
  bet-time score (\<^verbatim>\<open>null\<close>) the result is the one for the bet-time score 0-0, the
  evaluation of the current score itself.
\<close>

theorem handicap_since_snapshot:
  assumes "selectionType = ''Home Team'' \<or> selectionType = ''Away Team''"
    and "scoreReads currentScore h a"
    and "snapshotReads (Some b) bh ba"
  shows "calculateEnhancedPredictedResult selectionType line (Some b) currentScore
         = resultLabel (round2 (jadd
              (if selectionType = ''Home Team''
               then jsub (jsub (Finite h) (Finite bh)) (jsub (Finite a) (Finite ba))
               else jsub (jsub (Finite a) (Finite ba)) (jsub (Finite h) (Finite bh))) line))
           @ '' - '' @ selectionType @ '' ('' @ numberToString line @ '') (''
           @ numberToString (jsub (Finite h) (Finite bh)) @ ''-''
           @ numberToString (jsub (Finite a) (Finite ba)) @ '')''
       \<and> (hn < 2 ^ 51 \<and> an < 2 ^ 51 \<and> bhn < 2 ^ 51 \<and> ban < 2 ^ 51 \<longrightarrow>
            jsub (Finite (of_nat hn)) (Finite (of_nat bhn)) = Finite (of_int (int hn - int bhn))
          \<and> jsub (Finite (of_nat an)) (Finite (of_nat ban)) = Finite (of_int (int an - int ban))
          \<and> jsub (jsub (Finite (of_nat hn)) (Finite (of_nat bhn)))
                  (jsub (Finite (of_nat an)) (Finite (of_nat ban)))
              = Finite (of_int (int hn - int bhn - (int an - int ban))))
       \<and> calculateEnhancedPredictedResult selectionType line None currentScore
         = calculateEnhancedPredictedResult selectionType line (Some ''0-0'') currentScore"
proof (intro conjI impI)
  note el = scoreReads_elements [OF assms(2)]
  note dbl = scoreReads_isDouble [OF assms(2)]
  note u = snapshotReads_used [OF assms(3)]
  show "calculateEnhancedPredictedResult selectionType line (Some b) currentScore
         = resultLabel (round2 (jadd
              (if selectionType = ''Home Team''
               then jsub (jsub (Finite h) (Finite bh)) (jsub (Finite a) (Finite ba))
               else jsub (jsub (Finite a) (Finite ba)) (jsub (Finite h) (Finite bh))) line))
           @ '' - '' @ selectionType @ '' ('' @ numberToString line @ '') (''
           @ numberToString (jsub (Finite h) (Finite bh)) @ ''-''
           @ numberToString (jsub (Finite a) (Finite ba)) @ '')''"
    by (simp add: calc_handicap_used [OF assms(1) u(1)] u(2,3,4) el)
  have z: "snapshotUsed (Some ''0-0'')" by code_simp
  have p: "parseInt (splitStr CHR ''-'' (removeSpaces ''0-0'') ! 0) = Finite 0"
    "parseInt (splitStr CHR ''-'' (removeSpaces ''0-0'') ! 1) = Finite 0"
    by code_simp+
  show "calculateEnhancedPredictedResult selectionType line None currentScore
         = calculateEnhancedPredictedResult selectionType line (Some ''0-0'') currentScore"
    unfolding calc_handicap_used [OF assms(1) z] calc_handicap_absent [OF assms(1)] p el
    by (simp add: jsub_zero [OF dbl(1)] jsub_zero [OF dbl(2)])
next
  assume bounds: "hn < 2 ^ 51 \<and> an < 2 ^ 51 \<and> bhn < 2 ^ 51 \<and> ban < 2 ^ 51"
  have n: "(of_nat hn :: rat) = of_int (int hn)" "(of_nat an :: rat) = of_int (int an)"
    "(of_nat bhn :: rat) = of_int (int bhn)" "(of_nat ban :: rat) = of_int (int ban)"
    by simp_all
  have home: "jsub (Finite (of_int (int hn))) (Finite (of_int (int bhn)))
      = Finite (of_int (int hn - int bhn))"
    by (rule jsub_int) (use bounds in \<open>simp, arith\<close>)
  have away: "jsub (Finite (of_int (int an))) (Finite (of_int (int ban)))
      = Finite (of_int (int an - int ban))"
    by (rule jsub_int) (use bounds in \<open>simp, arith\<close>)
  have diff: "jsub (Finite (of_int (int hn - int bhn))) (Finite (of_int (int an - int ban)))
      = Finite (of_int (int hn - int bhn - (int an - int ban)))"
    by (rule jsub_int) (use bounds in \<open>simp, arith\<close>)
  show "jsub (Finite (of_nat hn)) (Finite (of_nat bhn)) = Finite (of_int (int hn - int bhn))"
    unfolding n by (rule home)
  show "jsub (Finite (of_nat an)) (Finite (of_nat ban)) = Finite (of_int (int an - int ban))"
    unfolding n by (rule away)
  show "jsub (jsub (Finite (of_nat hn)) (Finite (of_nat bhn)))
            (jsub (Finite (of_nat an)) (Finite (of_nat ban)))
      = Finite (of_int (int hn - int bhn - (int an - int ban)))"
    unfolding n home away by (rule diff)
qed

text \<open>
  Home Team -0.5 at 2-1: a Loss when the bet was placed at 1-0, a Win on the absolute
  score.
\<close>

theorem handicap_since_snapshot_witness:
  "(''Home Team'' = ''Home Team'' \<or> ''Home Team'' = ''Away Team'')
   \<and> scoreReads ''2-1'' 2 1 \<and> snapshotReads (Some ''1 - 0'') 1 0
   \<and> calculateEnhancedPredictedResult ''Home Team'' (Finite (- (1 / 2))) (Some ''1 - 0'') ''2-1''
       = ''Loss - Home Team (-0.5) (1-1)''
   \<and> jsub (jsub (Finite (of_nat 2)) (Finite (of_nat 1))) (jsub (Finite (of_nat 1)) (Finite (of_nat 0)))
       = Finite (of_int (int 2 - int 1 - (int 1 - int 0)))
   \<and> calculateEnhancedPredictedResult ''Home Team'' (Finite (- (1 / 2))) None ''2-1''
       = ''Win - Home Team (-0.5) (2-1)''
   \<and> calculateEnhancedPredictedResult ''Home Team'' (Finite (- (1 / 2))) (Some ''0-0'') ''2-1''
       = ''Win - Home Team (-0.5) (2-1)''"
proof -
  have sel: "''Home Team'' = ''Home Team'' \<or> ''Home Team'' = ''Away Team''" by simp
  have cur: "scoreReads ''2-1'' 2 1" by code_simp
  have bet: "snapshotReads (Some ''1 - 0'') 1 0" by code_simp
  have rhs: "resultLabel (round2 (jadd
              (if ''Home Team'' = ''Home Team''
               then jsub (jsub (Finite 2) (Finite 1)) (jsub (Finite 1) (Finite 0))
               else jsub (jsub (Finite 1) (Finite 0)) (jsub (Finite 2) (Finite 1)))
              (Finite (- (1 / 2)))))
           @ '' - '' @ ''Home Team'' @ '' ('' @ numberToString (Finite (- (1 / 2))) @ '') (''
           @ numberToString (jsub (Finite 2) (Finite 1)) @ ''-''
           @ numberToString (jsub (Finite 1) (Finite 0)) @ '')''
       = ''Loss - Home Team (-0.5) (1-1)''"
    by code_simp
  have absent: "calculateEnhancedPredictedResult ''Home Team'' (Finite (- (1 / 2))) None ''2-1''
       = ''Win - Home Team (-0.5) (2-1)''"
    by code_simp
  have b: "(2 :: nat) < 2 ^ 51 \<and> (1 :: nat) < 2 ^ 51 \<and> (1 :: nat) < 2 ^ 51 \<and> (0 :: nat) < 2 ^ 51"
    by simp
  have j: "jsub (Finite 1) (Finite 1) = Finite 0" by code_simp
  from handicap_since_snapshot [OF sel cur bet, of "Finite (- (1 / 2))" 2 1 1 0] b
  show ?thesis
    unfolding rhs absent using cur bet by (simp add: j)
qed

text \<open>
  C5, amended. For the four selection types, any line and any scores that are read as
  finite numbers, when the rounded margin that the engine computes in binary64 is a
  finite number in none of the five buckets of the specification, no error is raised:
  the result is a Loss, by the final \<^verbatim>\<open>else\<close> of the chain of comparisons.
\<close>

theorem unclassifiable_margin_is_loss:
  assumes "selectionType \<in> {''Home Team'', ''Away Team'', ''Over'', ''Under''}"
    and "scoreReads currentScore h a"
    and "snapshotReads betTimeScore bh ba"
    and "case computedMargin selectionType line (bh, ba) (h, a) of
           Finite m \<Rightarrow> spec_classify m = None
         | _ \<Rightarrow> False"
  shows "startsWith (calculateEnhancedPredictedResult selectionType line betTimeScore
           currentScore) ''Loss''"
proof -
  from assms(4) obtain m where m: "computedMargin selectionType line (bh, ba) (h, a) = Finite m"
    "spec_classify m = None"
    by (cases "computedMargin selectionType line (bh, ba) (h, a)") simp_all
  from calc_margin [OF assms(1,2,3), of line] show ?thesis
    unfolding m(1) by (simp add: resultLabel_classify m(2))
qed

text \<open>
  C5 as stated fails: for Home Team with line 0.125 at 0-0 the margin 0.13 is in no
  bucket, and the result is a Loss, not an error.
\<close>

theorem unclassifiable_margin_counterexample:
  "spec_classify (spec_margin ''Home Team'' (1 / 8) (0, 0) (0, 0)) = None
   \<and> calculateEnhancedPredictedResult ''Home Team'' (Finite (1 / 8)) None ''0-0''
       = ''Loss - Home Team (0.125) (0-0)''"
  by code_simp

text \<open>Over 2.3 at 1-1: the computed margin, the binary64 value of -0.3, is in no bucket.\<close>

theorem unclassifiable_margin_is_loss_witness:
  "''Over'' \<in> {''Home Team'', ''Away Team'', ''Over'', ''Under''}
   \<and> scoreReads ''1-1'' 1 1 \<and> snapshotReads None 0 0
   \<and> (case computedMargin ''Over'' (roundToDouble (23 / 10)) (0, 0) (1, 1) of
         Finite m \<Rightarrow> spec_classify m = None
       | _ \<Rightarrow> False)
   \<and> startsWith (calculateEnhancedPredictedResult ''Over'' (roundToDouble (23 / 10)) None ''1-1'')
         ''Loss''"
proof -
  have sel: "''Over'' \<in> {''Home Team'', ''Away Team'', ''Over'', ''Under''}" by simp
  have cur: "scoreReads ''1-1'' 1 1" by code_simp
  have bet: "snapshotReads None 0 0" by code_simp
  have m: "case computedMargin ''Over'' (roundToDouble (23 / 10)) (0, 0) (1, 1) of
         Finite m \<Rightarrow> spec_classify m = None
       | _ \<Rightarrow> False"
    by code_simp
  from unclassifiable_margin_is_loss [OF sel cur bet m] sel cur bet m
  show ?thesis by blast
qed

text \<open>
  C6, amended. A bet-time score that does not pass the guard of lines 127-132 (it is
  empty or \<^verbatim>\<open>N/A\<close>, or does not split at the hyphen into exactly two parts once its
  white space is removed, or \<^verbatim>\<open>parseInt\<close> reads no number from one of the parts) raises
  no error: it is ignored, and the result is the one for an absent bet-time score.
\<close>

theorem unparseable_snapshot_ignored:
  assumes "\<not> snapshotUsed (Some b)"
  shows "calculateEnhancedPredictedResult selectionType line (Some b) currentScore
       = calculateEnhancedPredictedResult selectionType line None currentScore"
  using assms by (rule calc_unused)

text \<open>
  C6 as stated fails: with the bet-time score \<^verbatim>\<open>abc\<close> the evaluation is not aborted,
  it goes on with the current score 2-1 alone and returns a Win.
\<close>

theorem unparseable_snapshot_counterexample:
  "calculateEnhancedPredictedResult ''Home Team'' (Finite (- (1 / 2))) (Some ''abc'') ''2-1''
     = ''Win - Home Team (-0.5) (2-1)''"
  by code_simp

text \<open>A bet-time score written with a colon.\<close>

theorem unparseable_snapshot_ignored_witness:
  "\<not> snapshotUsed (Some ''1:0'')
   \<and> calculateEnhancedPredictedResult ''Away Team'' (Finite (1 / 4)) (Some ''1:0'') ''1-1''
     = calculateEnhancedPredictedResult ''Away Team'' (Finite (1 / 4)) None ''1-1''"
proof -
  have n: "\<not> snapshotUsed (Some ''1:0'')" by code_simp
  from unparseable_snapshot_ignored [OF n] n show ?thesis by simp
qed

text \<open>
  C7, amended. For every selection type that is none of the four recognised strings,
  \<^verbatim>\<open>calculateEnhancedPredictedResult\<close> does not fail: it returns the string
  \<^verbatim>\<open>Pending\<close>, with no detail, for every line and all scores.
\<close>

theorem unrecognized_selection_pending:
  assumes "selectionType \<notin> {''Home Team'', ''Away Team'', ''Over'', ''Under''}"
  shows "calculateEnhancedPredictedResult selectionType line betTimeScore currentScore
       = ''Pending''"
  using assms by (rule calc_pending)

text \<open>
  C7 as stated fails: the selection type \<^verbatim>\<open>Draw\<close> is answered with the result
  \<^verbatim>\<open>Pending\<close>, not with a failure.
\<close>

theorem unrecognized_selection_counterexample:
  "calculateEnhancedPredictedResult ''Draw'' (Finite 0) None ''1-0'' = ''Pending''"
  by (simp add: calculateEnhancedPredictedResult_def)

text \<open>The selection type \<^verbatim>\<open>Home\<close>, which callers normalise to \<^verbatim>\<open>Home Team\<close>.\<close>

theorem unrecognized_selection_pending_witness:
  "''Home'' \<notin> {''Home Team'', ''Away Team'', ''Over'', ''Under''}
   \<and> calculateEnhancedPredictedResult ''Home'' (Finite (- (1 / 2))) (Some ''0-0'') ''2-1''
     = ''Pending''"
  using unrecognized_selection_pending [of "''Home''" "Finite (- (1 / 2))" "Some ''0-0''" "''2-1''"]
  by simp

text \<open>
  C8. For the selections Over and Under the result does not depend on the bet-time
  score: any two values of \<^verbatim>\<open>betTimeScore\<close>, \<^verbatim>\<open>null\<close> included, give the same result
  for the same line and current score.
\<close>

theorem totals_ignore_betTimeScore:
  assumes "selectionType = ''Over'' \<or> selectionType = ''Under''"
  shows "calculateEnhancedPredictedResult selectionType line betTimeScore currentScore
       = calculateEnhancedPredictedResult selectionType line betTimeScore' currentScore"
  by (simp only: calc_totals [OF assms])

text \<open>Over 2.5 at 2-1, placed at 2-0 or with no bet-time score.\<close>

theorem totals_ignore_betTimeScore_witness:
  "(''Over'' = ''Over'' \<or> ''Over'' = ''Under'')
   \<and> calculateEnhancedPredictedResult ''Over'' (Finite (5 / 2)) (Some ''2-0'') ''2-1''
     = calculateEnhancedPredictedResult ''Over'' (Finite (5 / 2)) None ''2-1''"
  using totals_ignore_betTimeScore [of "''Over''" "Finite (5 / 2)" "Some ''2-0''" "''2-1''" None]
  by simp

text \<open>
  C9. For a result of each of the five classes, with or without a detail suffix, the
  in-progress mapping \<^verbatim>\<open>getInProgressEmotion\<close> gives Win and Half Win the same
  \<^verbatim>\<open>hopeful\<close> emotion, Loss and Half Loss the same \<^verbatim>\<open>worried\<close> emotion and Push
  the \<^verbatim>\<open>neutral\<close> one; the settled mapping \<^verbatim>\<open>getEmotionFromResult\<close> gives each
  class an emotion of its own: joy for Win, relief for Half Win, neutral for Push,
  annoyed for Half Loss and anger for Loss.
\<close>

theorem emotion_mappings:
  "getInProgressEmotion (''Win'' @ d) = getInProgressEmotion (''Half Win'' @ d)
   \<and> state (getInProgressEmotion (''Win'' @ d)) = ''hopeful''
   \<and> state (getInProgressEmotion (''Half Win'' @ d)) = ''hopeful''
   \<and> getInProgressEmotion (''Loss'' @ d) = getInProgressEmotion (''Half Loss'' @ d)
   \<and> state (getInProgressEmotion (''Loss'' @ d)) = ''worried''
   \<and> state (getInProgressEmotion (''Half Loss'' @ d)) = ''worried''
   \<and> state (getInProgressEmotion (''Push'' @ d)) = ''neutral''
   \<and> getEmotionFromResult (''Win'' @ d)
       = \<lparr>emoji = [CHR 0xF0, CHR 0x9F, CHR 0x8E, CHR 0x89], state = ''joy'',
          description = ''Celebrating win!''\<rparr>
   \<and> getEmotionFromResult (''Half Win'' @ d)
       = \<lparr>emoji = [CHR 0xF0, CHR 0x9F, CHR 0x98, CHR 0x8A], state = ''relief'',
          description = ''Half win - not bad!''\<rparr>
   \<and> getEmotionFromResult (''Push'' @ d)
       = \<lparr>emoji = [CHR 0xF0, CHR 0x9F, CHR 0x98, CHR 0x90], state = ''neutral'',
          description = ''Push - stake returned''\<rparr>
   \<and> getEmotionFromResult (''Half Loss'' @ d)
       = \<lparr>emoji = [CHR 0xF0, CHR 0x9F, CHR 0x98, CHR 0x95], state = ''annoyed'',
          description = ''Half loss - could be worse''\<rparr>
   \<and> getEmotionFromResult (''Loss'' @ d)
       = \<lparr>emoji = [CHR 0xF0, CHR 0x9F, CHR 0x98, CHR 0xA1], state = ''anger'',
          description = ''Lost the bet!''\<rparr>
   \<and> distinct (map (\<lambda>oc. state (getEmotionFromResult (label oc @ d)))
         [Win, HalfWin, Push, HalfLoss, Loss])"
  by (simp add: getInProgressEmotion_def getEmotionFromResult_def)

text \<open>
  C10. For every result string that starts with none of \<^verbatim>\<open>Win\<close>, \<^verbatim>\<open>Half Win\<close>,
  \<^verbatim>\<open>Push\<close> and \<^verbatim>\<open>Half Loss\<close>, \<^verbatim>\<open>calculatePayout\<close> returns 0 whatever
  the stake and the odds are: an unrecognised result is paid as a full loss.
\<close>

theorem calculatePayout_unrecognized:
  assumes "\<not> startsWith result ''Win''" and "\<not> startsWith result ''Half Win''"
    and "\<not> startsWith result ''Push''" and "\<not> startsWith result ''Half Loss''"
  shows "calculatePayout result stake odds = Finite 0"
  using assms by (simp add: calculatePayout_def)

text \<open>The results \<^verbatim>\<open>Pending\<close> and \<^verbatim>\<open>Invalid\<close> pay 0.\<close>

theorem calculatePayout_unrecognized_witness:
  "\<not> startsWith ''Pending'' ''Win'' \<and> \<not> startsWith ''Pending'' ''Half Win''
   \<and> \<not> startsWith ''Pending'' ''Push'' \<and> \<not> startsWith ''Pending'' ''Half Loss''
   \<and> calculatePayout ''Pending'' (Finite 100) (Finite (186 / 100)) = Finite 0
   \<and> calculatePayout ''Invalid'' NaN PosInf = Finite 0"
  using calculatePayout_unrecognized [of "''Pending''" "Finite 100" "Finite (186 / 100)"]
    calculatePayout_unrecognized [of "''Invalid''" NaN PosInf]
  by simp

end
